theory Spec2Isabelle
  imports Complex_Main "HOL-Library.Sublist"
begin

section \<open>The create-subtraction workflow (src/workflow.py)\<close>

text \<open>
  The workflow is a list of start-up functions and steps that a job runtime calls in
  order, handing each one the collaborators it names as parameters: the job parameter
  dictionary, the database, an executor for blocking calls and a subprocess runner.
  The embedding keeps that shape. The file system and the database are an explicit
  world that every step takes and returns; an exception is a value \<open>Inl e\<close> returned
  together with the world as it was when the exception was raised.
\<close>

subsection \<open>Paths and strings\<close>

type_synonym path = string

text \<open>
  \<open>posixpath.join\<close>: a component that starts with a slash replaces what was joined
  so far; a separator is inserted unless the path so far is empty or ends with one.
\<close>

definition join2 :: "path \<Rightarrow> string \<Rightarrow> path" where
  "join2 p b =
     (if b \<noteq> [] \<and> hd b = CHR ''/'' then b
      else if p = [] \<or> last p = CHR ''/'' then p @ b
      else p @ ''/'' @ b)"

definition os_path_join :: "path \<Rightarrow> string list \<Rightarrow> path" where
  "os_path_join a ps = foldl join2 a ps"

text \<open>
  \<open>str.replace(" ", "_")\<close> and \<open>str.lower()\<close>. Strings are byte strings here and
  \<open>lower\<close> maps the ASCII capitals only: identifiers are taken to be ASCII.
\<close>

definition replace_space :: "string \<Rightarrow> string" where
  "replace_space s = map (\<lambda>c. if c = CHR '' '' then CHR ''_'' else c) s"

definition lower_char :: "char \<Rightarrow> char" where
  "lower_char c =
     (case map_of (zip ''ABCDEFGHIJKLMNOPQRSTUVWXYZ'' ''abcdefghijklmnopqrstuvwxyz'') c of
        Some l \<Rightarrow> l
      | None \<Rightarrow> c)"

definition lower :: "string \<Rightarrow> string" where
  "lower s = map lower_char s"

subsection \<open>Exceptions and the job parameters\<close>

datatype exn =
    FileNotFoundError
  | FileExistsError
  | IsADirectoryError
  | NotADirectoryError
  | KeyError string
  | StagingError
  | UnicodeDecodeError
  | CancelledError
  | OtherError string

text \<open>\<open>job_params\<close> is a dictionary from names to strings; a missing key raises.\<close>

type_synonym job_params = "string \<rightharpoonup> string"

definition param :: "job_params \<Rightarrow> string \<Rightarrow> exn + string" where
  "param job_params k =
     (case job_params k of None \<Rightarrow> Inl (KeyError k) | Some v \<Rightarrow> Inr v)"

subsection \<open>Start-up: \<open>check_db\<close>\<close>

text \<open>
  \<open>check_db\<close> reads the two identifiers and stores the five derived paths with
  \<open>job_params.update\<close>. The dictionary is mutated in place in the source; the model
  returns the updated dictionary next to the returned message.
\<close>

definition check_db :: "job_params \<Rightarrow> path \<Rightarrow> path \<Rightarrow> exn + (string \<times> job_params)" where
  "check_db job_params data_path temp_path =
     (case param job_params ''subtraction_id'' of
        Inl e \<Rightarrow> Inl e
      | Inr subtraction_id \<Rightarrow>
     (case param job_params ''file_id'' of
        Inl e \<Rightarrow> Inl e
      | Inr file_id \<Rightarrow>
          (let subtraction_path =
                 os_path_join data_path
                   [''subtractions'', lower (replace_space subtraction_id)];
               temp_subtraction_path = os_path_join temp_path [subtraction_id]
           in Inr (''check_db completed'',
                job_params
                  (''subtraction_path'' \<mapsto> subtraction_path,
                   ''temp_subtraction_path'' \<mapsto> temp_subtraction_path,
                   ''file_path'' \<mapsto> os_path_join data_path [''files'', file_id],
                   ''temp_fasta_path'' \<mapsto>
                      os_path_join temp_subtraction_path [''subtraction.fa''],
                   ''temp_index_path'' \<mapsto>
                      os_path_join temp_subtraction_path [''reference''])))))"

subsection \<open>The file system\<close>

text \<open>
  A file system maps a path, as the string the program built, to a file with its
  content or to a directory. Paths are compared as strings: no normalisation,
  links or permissions. Content is raw text or the gzip of some content.
\<close>

datatype fdata = Raw string | Gz fdata

datatype node = File fdata | Dir

type_synonym filesystem = "path \<rightharpoonup> node"

type_synonym fs_op = "filesystem \<Rightarrow> (exn + unit) \<times> filesystem"

text \<open>\<open>under d q\<close>: the path \<open>q\<close> is \<open>d\<close> itself or lies in the tree below it.\<close>

definition under :: "path \<Rightarrow> path \<Rightarrow> bool" where
  "under d q \<longleftrightarrow> q = d \<or> prefix (d @ ''/'') q"

text \<open>The proper ancestors of a path: what stands before each of its later slashes.\<close>

definition parents :: "path \<Rightarrow> path list" where
  "parents p = map (\<lambda>i. take i p) (filter (\<lambda>i. p ! i = CHR ''/'') [1..<length p])"

definition is_file :: "filesystem \<Rightarrow> path \<Rightarrow> bool" where
  "is_file fs p = (case fs p of Some (File d) \<Rightarrow> True | _ \<Rightarrow> False)"

text \<open>A path cannot be resolved when one of its ancestors is a regular file.\<close>

definition blocked :: "filesystem \<Rightarrow> path \<Rightarrow> bool" where
  "blocked fs p = list_ex (is_file fs) (parents p)"

text \<open>\<open>os.remove\<close>: unlinks a file; a directory is refused (Linux).\<close>

definition os_remove :: "path \<Rightarrow> fs_op" where
  "os_remove p fs =
     (if blocked fs p then (Inl NotADirectoryError, fs)
      else case fs p of
             None \<Rightarrow> (Inl FileNotFoundError, fs)
           | Some Dir \<Rightarrow> (Inl IsADirectoryError, fs)
           | Some (File d) \<Rightarrow> (Inr (), fs(p := None)))"

text \<open>\<open>shutil.rmtree\<close>: removes a directory and everything below it.\<close>

definition shutil_rmtree :: "path \<Rightarrow> fs_op" where
  "shutil_rmtree p fs =
     (if blocked fs p then (Inl NotADirectoryError, fs)
      else case fs p of
             None \<Rightarrow> (Inl FileNotFoundError, fs)
           | Some (File d) \<Rightarrow> (Inl NotADirectoryError, fs)
           | Some Dir \<Rightarrow> (Inr (), \<lambda>q. if under p q then None else fs q))"

text \<open>
  \<open>virtool_core.utils.rm(path, recursive=False)\<close>: \<open>os.remove\<close>, and when that
  raises \<open>IsADirectoryError\<close> and \<open>recursive\<close> is set, \<open>shutil.rmtree\<close>; every
  other exception is passed on.
\<close>

definition rm :: "path \<Rightarrow> bool \<Rightarrow> fs_op" where
  "rm p recursive fs =
     (case os_remove p fs of
        (Inl IsADirectoryError, fs') \<Rightarrow>
          (if recursive then shutil_rmtree p fs' else (Inl IsADirectoryError, fs'))
      | r \<Rightarrow> r)"

text \<open>
  \<open>os.makedirs(path, exist_ok)\<close>: creates the directory and its missing ancestors.
\<close>

definition os_makedirs :: "path \<Rightarrow> bool \<Rightarrow> fs_op" where
  "os_makedirs p exist_ok fs =
     (if p = [] then (Inl FileNotFoundError, fs)
      else if blocked fs p then (Inl NotADirectoryError, fs)
      else case fs p of
             Some (File d) \<Rightarrow> (Inl FileExistsError, fs)
           | Some Dir \<Rightarrow> (if exist_ok then (Inr (), fs) else (Inl FileExistsError, fs))
           | None \<Rightarrow> (Inr (), \<lambda>q. if q = p \<or> q \<in> set (parents p) then Some Dir else fs q))"

text \<open>Opening a file for reading, and creating or truncating one for writing.\<close>

definition read_file :: "path \<Rightarrow> filesystem \<Rightarrow> exn + fdata" where
  "read_file p fs =
     (if blocked fs p then Inl NotADirectoryError
      else case fs p of
             None \<Rightarrow> Inl FileNotFoundError
           | Some Dir \<Rightarrow> Inl IsADirectoryError
           | Some (File d) \<Rightarrow> Inr d)"

definition write_file :: "path \<Rightarrow> fdata \<Rightarrow> fs_op" where
  "write_file p d fs =
     (if blocked fs p then (Inl NotADirectoryError, fs)
      else if fs p = Some Dir then (Inl IsADirectoryError, fs)
      else if parents p \<noteq> [] \<and> fs (last (parents p)) = None then (Inl FileNotFoundError, fs)
      else (Inr (), fs(p \<mapsto> File d)))"

text \<open>
  \<open>virtool_core.utils.compress_file(path, target, processes)\<close>, in its gzip branch:
  reads \<open>path\<close> and writes its gzip to \<open>target\<close>. The process count only selects how
  the compression is run.
\<close>

definition compress_file :: "path \<Rightarrow> path \<Rightarrow> int \<Rightarrow> fs_op" where
  "compress_file p target processes fs =
     (case read_file p fs of
        Inl e \<Rightarrow> (Inl e, fs)
      | Inr d \<Rightarrow> write_file target (Gz d) fs)"

text \<open>
  \<open>shutil.copytree(src, dst)\<close>: lists \<open>src\<close>, which must be a directory; makes \<open>dst\<close>
  with \<open>os.makedirs(dst)\<close>, so that \<open>dst\<close> must not exist and its missing ancestors
  are created; then copies every entry below \<open>src\<close>, taken from the tree as it was
  before the call. The source tree stays. The file system here has no entry that
  cannot be copied (no permissions, no quota, no special files), so that the copy of
  the entries goes through once \<open>dst\<close> is made. The library collects the errors of
  the entries that the operating system did not let it copy and raises
  \<open>shutil.Error\<close> at the end, leaving \<open>dst\<close> with a part of the entries: a copy that
  is broken off in this way is an outcome of the executor that runs it (see
  \<open>interruptible\<close> and \<open>breaking_off\<close> below).
\<close>

definition shutil_copytree :: "path \<Rightarrow> path \<Rightarrow> fs_op" where
  "shutil_copytree src dst fs =
     (if blocked fs src then (Inl NotADirectoryError, fs)
      else case fs src of
             None \<Rightarrow> (Inl FileNotFoundError, fs)
           | Some (File d) \<Rightarrow> (Inl NotADirectoryError, fs)
           | Some Dir \<Rightarrow>
               (case os_makedirs dst False fs of
                  (Inl e, fs') \<Rightarrow> (Inl e, fs')
                | (Inr u, fs') \<Rightarrow>
                    (Inr (),
                     \<lambda>q. if prefix (dst @ ''/'') q then fs (src @ drop (length dst) q)
                         else fs' q)))"

subsection \<open>The database\<close>

text \<open>
  \<open>db.subtraction\<close> is a collection of documents keyed by \<open>_id\<close>; a document maps
  field names to values. \<open>update_one\<close> with \<open>$set\<close> changes the named fields of the
  matching document and does nothing when no document matches; \<open>delete_one\<close> removes
  the matching document, if any. Fractions are exact rationals.
\<close>

datatype bson = BStr string | BInt int | BBool bool | BFractions "(string \<times> rat) list"

type_synonym document = "string \<rightharpoonup> bson"

type_synonym collection = "string \<rightharpoonup> document"

definition set_fields :: "(string \<times> bson) list \<Rightarrow> document \<Rightarrow> document" where
  "set_fields sets doc = fold (\<lambda>(k, v) d. d(k \<mapsto> v)) sets doc"

definition update_one :: "string \<Rightarrow> (string \<times> bson) list \<Rightarrow> collection \<Rightarrow> collection" where
  "update_one ident sets c =
     (case c ident of None \<Rightarrow> c | Some doc \<Rightarrow> c(ident \<mapsto> set_fields sets doc))"

definition delete_one :: "string \<Rightarrow> collection \<Rightarrow> collection" where
  "delete_one ident c = c(ident := None)"

subsection \<open>The world and the collaborators\<close>

text \<open>
  The world holds the files, the \<open>subtraction\<close> collection and a log of the
  subprocesses that were run, each with what the runner gave back.
\<close>

record world =
  files :: filesystem
  subtraction :: collection
  spawned :: "(string list \<times> (exn + int)) list"

type_synonym 'a io = "world \<Rightarrow> (exn + 'a) \<times> world"

definition io_return :: "'a \<Rightarrow> 'a io" where
  "io_return x w = (Inr x, w)"

definition io_bind :: "'a io \<Rightarrow> ('a \<Rightarrow> 'b io) \<Rightarrow> 'b io" where
  "io_bind m k w = (case m w of (Inl e, w') \<Rightarrow> (Inl e, w') | (Inr x, w') \<Rightarrow> k x w')"

definition io_param :: "job_params \<Rightarrow> string \<Rightarrow> string io" where
  "io_param job_params k w = (param job_params k, w)"

text \<open>\<open>try: m except FileNotFoundError: pass\<close>\<close>

definition except_FileNotFoundError :: "unit io \<Rightarrow> unit io" where
  "except_FileNotFoundError m w =
     (case m w of (Inl FileNotFoundError, w') \<Rightarrow> (Inr (), w') | r \<Rightarrow> r)"

text \<open>
  \<open>run_in_executor\<close> is a parameter of the steps: it is given a blocking file
  operation, and the step awaits what it gives back. \<open>run_direct\<close> is the executor
  that runs the operation to its end.
\<close>

type_synonym executor = "fs_op \<Rightarrow> fs_op"

definition run_direct :: executor where
  "run_direct f = f"

definition await_executor :: "executor \<Rightarrow> fs_op \<Rightarrow> unit io" where
  "await_executor run_in_executor f w =
     (case run_in_executor f (files w) of (r, fs') \<Rightarrow> (r, w\<lparr>files := fs'\<rparr>))"

text \<open>
  \<open>run_subprocess\<close> is a parameter too: it is given the command line, may change
  files, and raises or gives back the exit code. The step discards what it gives back.
\<close>

type_synonym runner = "string list \<Rightarrow> filesystem \<Rightarrow> (exn + int) \<times> filesystem"

definition await_subprocess :: "runner \<Rightarrow> string list \<Rightarrow> unit io" where
  "await_subprocess run_subprocess command w =
     (case run_subprocess command (files w) of
        (r, fs') \<Rightarrow>
          (case r of Inl e \<Rightarrow> Inl e | Inr code \<Rightarrow> Inr (),
           w\<lparr>files := fs', spawned := spawned w @ [(command, r)]\<rparr>))"

definition db_update_one :: "string \<Rightarrow> (string \<times> bson) list \<Rightarrow> unit io" where
  "db_update_one ident sets w = (Inr (), w\<lparr>subtraction := update_one ident sets (subtraction w)\<rparr>)"

definition db_delete_one :: "string \<Rightarrow> unit io" where
  "db_delete_one ident w = (Inr (), w\<lparr>subtraction := delete_one ident (subtraction w)\<rparr>)"

subsection \<open>The cleanup handler\<close>

text \<open>
  \<open>delete_subtraction\<close> is the closure that \<open>clean_up\<close> registers for failure and
  cancellation, over \<open>db\<close>, \<open>job_params\<close> and \<open>run_in_executor\<close>.
\<close>

definition delete_subtraction :: "job_params \<Rightarrow> executor \<Rightarrow> string io" where
  "delete_subtraction job_params run_in_executor =
     io_bind
       (except_FileNotFoundError
          (io_bind (io_param job_params ''subtraction_path'')
             (\<lambda>p. await_executor run_in_executor (rm p True))))
       (\<lambda>_. io_bind (io_param job_params ''subtraction_id'')
       (\<lambda>ident. io_bind (db_delete_one ident)
       (\<lambda>_. io_return ''delete_subtraction completed'')))"

subsection \<open>The helpers of \<open>utils\<close>\<close>

text \<open>
  Modelled from the spec: \<open>utils.copy_or_decompress\<close> is not among the sources. The
  spec's \<open>stageInput\<close> copies the source file to the destination when it is plain
  FASTA and decompresses it when it is gzip-compressed, so that the destination is
  always uncompressed; a source that cannot be read or a destination that cannot be
  written is a \<open>StagingError\<close>.
\<close>

definition copy_or_decompress :: "path \<Rightarrow> path \<Rightarrow> int \<Rightarrow> fs_op" where
  "copy_or_decompress src dst processes fs =
     (case read_file src fs of
        Inl e \<Rightarrow> (Inl StagingError, fs)
      | Inr d \<Rightarrow>
          (case write_file dst (case d of Gz d' \<Rightarrow> d' | Raw s \<Rightarrow> Raw s) fs of
             (Inl e, fs') \<Rightarrow> (Inl StagingError, fs')
           | r \<Rightarrow> r))"

text \<open>
  Modelled from the spec: \<open>utils.calculate_fasta_gc\<close> is not among the sources. The
  spec's \<open>computeStats\<close> reads the file line by line; a line that starts with the
  marker \<open>>\<close> is a header and counts as one record, every other line is sequence
  data. Every sequence character counts toward the total; the counts of the four
  canonical bases are taken without regard to case, and each fraction is the count
  divided by the total, or 0 when the total is 0. For the characters outside the
  canonical alphabet the spec leaves two policies to the implementer. The policy
  taken here is the one under which the stored fractions sum to 1, as the spec's data
  model and its testable properties have it: they are reported under a residual
  bucket, the entry \<open>N\<close>.
\<close>

fun lines_from :: "string \<Rightarrow> string \<Rightarrow> string list" where
  "lines_from cur [] = (if cur = [] then [] else [cur])"
| "lines_from cur (c # cs) =
     (if c = CHR 0x0A then cur # lines_from [] cs else lines_from (cur @ [c]) cs)"

definition split_lines :: "string \<Rightarrow> string list" where
  "split_lines s = lines_from [] s"

definition is_header :: "string \<Rightarrow> bool" where
  "is_header l \<longleftrightarrow> l \<noteq> [] \<and> hd l = CHR ''>''"

definition sequence_chars :: "string list \<Rightarrow> string" where
  "sequence_chars ls = concat (filter (\<lambda>l. \<not> is_header l) ls)"

definition base_count :: "char \<Rightarrow> string \<Rightarrow> nat" where
  "base_count b cs = length (filter (\<lambda>c. lower_char c = b) cs)"

definition residual_count :: "string \<Rightarrow> nat" where
  "residual_count cs = length (filter (\<lambda>c. lower_char c \<notin> set ''atgc'') cs)"

definition fraction :: "nat \<Rightarrow> nat \<Rightarrow> rat" where
  "fraction k n = (if n = 0 then 0 else of_nat k / of_nat n)"

definition base_fractions :: "string list \<Rightarrow> (string \<times> rat) list" where
  "base_fractions ls =
     (let cs = sequence_chars ls; n = length cs
      in [(''A'', fraction (base_count CHR ''a'' cs) n),
          (''T'', fraction (base_count CHR ''t'' cs) n),
          (''G'', fraction (base_count CHR ''g'' cs) n),
          (''C'', fraction (base_count CHR ''c'' cs) n),
          (''N'', fraction (residual_count cs) n)])"

definition sequence_count :: "string list \<Rightarrow> int" where
  "sequence_count ls = int (length (filter is_header ls))"

definition compute_stats :: "string list \<Rightarrow> (string \<times> rat) list \<times> int" where
  "compute_stats ls = (base_fractions ls, sequence_count ls)"

definition calculate_fasta_gc :: "path \<Rightarrow> ((string \<times> rat) list \<times> int) io" where
  "calculate_fasta_gc p w =
     (case read_file p (files w) of
        Inl e \<Rightarrow> (Inl e, w)
      | Inr (Gz d) \<Rightarrow> (Inl UnicodeDecodeError, w)
      | Inr (Raw s) \<Rightarrow> (Inr (compute_stats (split_lines s)), w))"

subsection \<open>The steps\<close>

text \<open>\<open>str\<close> of a Python integer: decimal digits, with a minus sign when negative.\<close>

definition digit_char :: "nat \<Rightarrow> char" where
  "digit_char d = ''0123456789'' ! d"

fun str_nat :: "nat \<Rightarrow> string" where
  "str_nat n = (if n < 10 then [digit_char n] else str_nat (n div 10) @ [digit_char (n mod 10)])"

declare str_nat.simps [simp del]

definition str_int :: "int \<Rightarrow> string" where
  "str_int i = (if i < 0 then CHR ''-'' # str_nat (nat (- i)) else str_nat (nat i))"

definition make_subtraction_dir :: "job_params \<Rightarrow> executor \<Rightarrow> string io" where
  "make_subtraction_dir job_params run_in_executor =
     io_bind (io_param job_params ''temp_subtraction_path'')
       (\<lambda>p. io_bind (await_executor run_in_executor (os_makedirs p True))
       (\<lambda>_. io_return ''make_subtraction_dir completed''))"

definition unpack :: "job_params \<Rightarrow> int \<Rightarrow> executor \<Rightarrow> string io" where
  "unpack job_params number_of_processes run_in_executor =
     io_bind (io_param job_params ''file_path'')
       (\<lambda>src. io_bind (io_param job_params ''temp_fasta_path'')
       (\<lambda>dst. io_bind
                (await_executor run_in_executor
                   (copy_or_decompress src dst number_of_processes))
       (\<lambda>_. io_return ''unpack completed'')))"

definition set_stats :: "job_params \<Rightarrow> string io" where
  "set_stats job_params =
     io_bind (io_param job_params ''temp_fasta_path'')
       (\<lambda>p. io_bind (calculate_fasta_gc p)
       (\<lambda>(gc, count). io_bind (io_param job_params ''subtraction_id'')
       (\<lambda>ident. io_bind
                  (db_update_one ident [(''gc'', BFractions gc), (''count'', BInt count)])
       (\<lambda>_. io_return ''set_stats completed''))))"

definition bowtie_command :: "int \<Rightarrow> path \<Rightarrow> path \<Rightarrow> string list" where
  "bowtie_command number_of_processes temp_fasta_path temp_index_path =
     [''bowtie2-build'', ''-f'', ''--threads'', str_int number_of_processes,
      temp_fasta_path, temp_index_path]"

definition bowtie_build :: "job_params \<Rightarrow> int \<Rightarrow> runner \<Rightarrow> string io" where
  "bowtie_build job_params number_of_processes run_subprocess =
     io_bind (io_param job_params ''temp_fasta_path'')
       (\<lambda>fasta. io_bind (io_param job_params ''temp_index_path'')
       (\<lambda>index. io_bind
                  (await_subprocess run_subprocess
                     (bowtie_command number_of_processes fasta index))
       (\<lambda>_. io_bind (io_param job_params ''subtraction_id'')
       (\<lambda>ident. io_bind (db_update_one ident [(''ready'', BBool True)])
       (\<lambda>_. io_return ''bowtie_build completed'')))))"

definition compress :: "job_params \<Rightarrow> int \<Rightarrow> executor \<Rightarrow> string io" where
  "compress job_params number_of_processes run_in_executor =
     io_bind (io_param job_params ''temp_fasta_path'')
       (\<lambda>fasta. io_bind
                  (await_executor run_in_executor
                     (compress_file fasta (fasta @ ''.gz'') number_of_processes))
       (\<lambda>_. io_bind (io_param job_params ''temp_fasta_path'')
       (\<lambda>fasta. io_bind (await_executor run_in_executor (rm fasta False))
       (\<lambda>_. io_bind (io_param job_params ''temp_subtraction_path'')
       (\<lambda>src. io_bind (io_param job_params ''subtraction_path'')
       (\<lambda>dst. io_bind (await_executor run_in_executor (shutil_copytree src dst))
       (\<lambda>_. io_return ''compress completed'')))))))"

subsection \<open>The job runtime\<close>

text \<open>
  The runtime that calls the start-up functions and the steps is the
  \<open>virtool_workflow\<close> library. As the spec describes it, it runs the steps strictly in
  the order they are declared, stops at the first one that raises, and then calls the
  handler registered for failure and cancellation once; a job whose steps all return
  ends without the handler running. The identifiers come from the runtime. The trace
  lists the world at the start, after every step that was run and after the handler.
\<close>

datatype job_state = Succeeded | Failed exn | Cancelled

definition final_state :: "exn \<Rightarrow> job_state" where
  "final_state e = (if e = CancelledError then Cancelled else Failed e)"

fun run_steps :: "string io list \<Rightarrow> world \<Rightarrow> (exn + unit) \<times> world list" where
  "run_steps [] w = (Inr (), [])"
| "run_steps (s # ss) w =
     (case s w of
        (Inl e, w') \<Rightarrow> (Inl e, [w'])
      | (Inr msg, w') \<Rightarrow> (case run_steps ss w' of (r, tr) \<Rightarrow> (r, w' # tr)))"

definition steps :: "job_params \<Rightarrow> int \<Rightarrow> executor \<Rightarrow> runner \<Rightarrow> string io list" where
  "steps job_params number_of_processes run_in_executor run_subprocess =
     [make_subtraction_dir job_params run_in_executor,
      unpack job_params number_of_processes run_in_executor,
      set_stats job_params,
      bowtie_build job_params number_of_processes run_subprocess,
      compress job_params number_of_processes run_in_executor]"

definition run_job ::
  "job_params \<Rightarrow> int \<Rightarrow> executor \<Rightarrow> runner \<Rightarrow> world \<Rightarrow> job_state \<times> world list" where
  "run_job job_params number_of_processes run_in_executor run_subprocess w =
     (case run_steps
             (steps job_params number_of_processes run_in_executor run_subprocess) w of
        (Inr u, tr) \<Rightarrow> (Succeeded, w # tr)
      | (Inl e, tr) \<Rightarrow>
          (final_state e,
           w # tr @ [snd (delete_subtraction job_params run_in_executor (last (w # tr)))]))"

definition run_workflow ::
  "string \<Rightarrow> string \<Rightarrow> path \<Rightarrow> path \<Rightarrow> int \<Rightarrow> executor \<Rightarrow> runner \<Rightarrow> world
     \<Rightarrow> job_state \<times> world list" where
  "run_workflow subtraction_id file_id data_path temp_path number_of_processes
       run_in_executor run_subprocess w =
     (case check_db [''subtraction_id'' \<mapsto> subtraction_id, ''file_id'' \<mapsto> file_id]
             data_path temp_path of
        Inl e \<Rightarrow> (Failed e, [w])
      | Inr (msg, job_params) \<Rightarrow>
          run_job job_params number_of_processes run_in_executor run_subprocess w)"

subsection \<open>A runner and a world for the examples\<close>

text \<open>
  A runner in the manner of \<open>bowtie2-build\<close>: it reads the FASTA named by the command
  line and writes index files at the output prefix with exit code 0, and raises when
  the FASTA cannot be read.
\<close>

definition bowtie2_build :: runner where
  "bowtie2_build command fs =
     (case read_file (command ! 4) fs of
        Inr (Raw s) \<Rightarrow>
          (Inr 0, fs(command ! 5 @ ''.1.bt2'' \<mapsto> File (Raw s),
                     command ! 5 @ ''.rev.1.bt2'' \<mapsto> File (Raw (rev s))))
      | _ \<Rightarrow> (Inl (OtherError ''bowtie2-build''), fs))"

definition example_files :: filesystem where
  "example_files =
     [''/data'' \<mapsto> Dir,
      ''/data/files'' \<mapsto> Dir,
      ''/data/files/f1'' \<mapsto> File (Gz (Raw (''>s1'' @ [CHR 0x0A] @ ''ATGC'' @ [CHR 0x0A]))),
      ''/data/subtractions'' \<mapsto> Dir,
      ''/tmp'' \<mapsto> Dir]"

definition example_world :: world where
  "example_world =
     \<lparr>files = example_files,
      subtraction = [''Host A'' \<mapsto> [''ready'' \<mapsto> BBool False, ''name'' \<mapsto> BStr ''Host A'']],
      spawned = []\<rparr>"

definition example_params :: job_params where
  "example_params =
     [''subtraction_id'' \<mapsto> ''Host A'',
      ''file_id'' \<mapsto> ''f1'',
      ''subtraction_path'' \<mapsto> ''/data/subtractions/host_a'',
      ''temp_subtraction_path'' \<mapsto> ''/tmp/Host A'',
      ''file_path'' \<mapsto> ''/data/files/f1'',
      ''temp_fasta_path'' \<mapsto> ''/tmp/Host A/subtraction.fa'',
      ''temp_index_path'' \<mapsto> ''/tmp/Host A/reference'']"

text \<open>
  A runner that gives back exit code 1 and writes nothing, as a subprocess runner
  that hands the exit status to its caller does when the indexer fails.
\<close>

definition exit_one :: runner where
  "exit_one command fs = (Inr 1, fs)"

text \<open>
  An executor that the operating system stops in the middle of a copy: when the
  operation it is given would make the directory \<open>p\<close>, it makes \<open>p\<close> and nothing
  else and raises; every other operation it runs to its end.
\<close>

definition breaking_off :: "path \<Rightarrow> executor" where
  "breaking_off p f fs =
     (case f fs of
        (Inl e, fs') \<Rightarrow> (Inl e, fs')
      | (Inr u, fs') \<Rightarrow>
          (if fs p = None \<and> fs' p = Some Dir
           then (Inl (OtherError ''shutil.Error''), fs(p \<mapsto> Dir))
           else (Inr u, fs')))"

subsection \<open>Predicates of the statements\<close>

text \<open>
  A root directory that is not empty and does not end with a slash, and a name that
  is not empty and neither starts nor ends with one: for these \<open>os.path.join\<close> is
  concatenation with a slash in between.
\<close>

definition plain_root :: "path \<Rightarrow> bool" where
  "plain_root p \<longleftrightarrow> p \<noteq> [] \<and> last p \<noteq> CHR ''/''"

definition plain_name :: "string \<Rightarrow> bool" where
  "plain_name s \<longleftrightarrow> s \<noteq> [] \<and> hd s \<noteq> CHR ''/'' \<and> last s \<noteq> CHR ''/''"

text \<open>
  Reading a decimal string back as an integer (Python's \<open>int\<close>), to say which number
  an argument of a command line stands for.
\<close>

definition digit_val :: "char \<Rightarrow> nat" where
  "digit_val c = length (takeWhile (\<lambda>d. d \<noteq> c) ''0123456789'')"

definition nat_of_str :: "string \<Rightarrow> nat" where
  "nat_of_str s = foldl (\<lambda>a c. 10 * a + digit_val c) 0 s"

definition int_of_str :: "string \<Rightarrow> int" where
  "int_of_str s =
     (case s of
        [] \<Rightarrow> 0
      | c # cs \<Rightarrow> if c = CHR ''-'' then - int (nat_of_str cs) else int (nat_of_str s))"

text \<open>A field of a document of the collection, when the document exists.\<close>

definition field_of :: "world \<Rightarrow> string \<Rightarrow> string \<Rightarrow> bson option option" where
  "field_of w ident f = map_option (\<lambda>doc. doc f) (subtraction w ident)"

text \<open>A world in which the directory of the subtractions is a regular file.\<close>

definition blocked_world :: world where
  "blocked_world =
     \<lparr>files = [''/data'' \<mapsto> Dir, ''/data/subtractions'' \<mapsto> File (Raw ''x'')],
      subtraction = [''Host A'' \<mapsto> [''ready'' \<mapsto> BBool False]],
      spawned = []\<rparr>"

text \<open>The example world after the FASTA file was staged.\<close>

definition staged_world :: world where
  "staged_world =
     example_world\<lparr>files := example_files
       (''/tmp/Host A'' \<mapsto> Dir,
        ''/tmp/Host A/subtraction.fa'' \<mapsto>
           File (Raw (''>s1'' @ [CHR 0x0A] @ ''ATGC'' @ [CHR 0x0A])))\<rparr>"

text \<open>The example world after a job that succeeded: the final directory holds a copy.\<close>

definition finalised_world :: world where
  "finalised_world =
     \<lparr>files = example_files
        (''/tmp/Host A'' \<mapsto> Dir,
         ''/tmp/Host A/subtraction.fa.gz'' \<mapsto> File (Gz (Raw ''>s1'')),
         ''/tmp/Host A/reference.1.bt2'' \<mapsto> File (Raw ''index''),
         ''/data/subtractions/host_a'' \<mapsto> Dir,
         ''/data/subtractions/host_a/subtraction.fa.gz'' \<mapsto> File (Gz (Raw ''>s1'')),
         ''/data/subtractions/host_a/reference.1.bt2'' \<mapsto> File (Raw ''index'')),
      subtraction = [''Host A'' \<mapsto> [''ready'' \<mapsto> BBool True]],
      spawned = []\<rparr>"

text \<open>The example world after the working directory was made, with nothing staged.\<close>

definition unstaged_world :: world where
  "unstaged_world = example_world\<lparr>files := example_files(''/tmp/Host A'' \<mapsto> Dir)\<rparr>"

text \<open>The example world after the index was built.\<close>

definition indexed_world :: world where
  "indexed_world =
     \<lparr>files = example_files
        (''/tmp/Host A'' \<mapsto> Dir,
         ''/tmp/Host A/subtraction.fa'' \<mapsto> File (Raw ''>s1''),
         ''/tmp/Host A/reference.1.bt2'' \<mapsto> File (Raw ''index'')),
      subtraction = [''Host A'' \<mapsto> [''ready'' \<mapsto> BBool True]],
      spawned = []\<rparr>"

text \<open>
  What can be observed of a world: nothing exists at the final path or below it; the
  record is marked ready; a file exists at the index prefix followed by a dot; the
  log holds a run of the command that gave back exit code 0; the log holds a run of
  the command that gave back an exit code, whichever.
\<close>

definition final_absent :: "path \<Rightarrow> world \<Rightarrow> bool" where
  "final_absent dst w \<longleftrightarrow> (\<forall>q. under dst q \<longrightarrow> files w q = None)"

definition is_ready :: "string \<Rightarrow> world \<Rightarrow> bool" where
  "is_ready ident w \<longleftrightarrow> field_of w ident ''ready'' = Some (Some (BBool True))"

definition indexed :: "path \<Rightarrow> world \<Rightarrow> bool" where
  "indexed index w \<longleftrightarrow> (\<exists>q. prefix (index @ ''.'') q \<and> files w q \<noteq> None)"

definition logged :: "string list \<Rightarrow> world \<Rightarrow> bool" where
  "logged command w \<longleftrightarrow> (command, Inr 0) \<in> set (spawned w)"

definition returned :: "string list \<Rightarrow> world \<Rightarrow> bool" where
  "returned command w \<longleftrightarrow>
     list_ex (\<lambda>(c, r). c = command \<and> (case r of Inl e \<Rightarrow> False | Inr code \<Rightarrow> True))
       (spawned w)"

text \<open>
  An executor stands for the thread pool and for the operating system below it. What
  is taken for granted of it: for every call it either runs the operation to its end
  and gives back what the operation gives back, or it breaks the operation off. Then
  it raises (\<open>CancelledError\<close>, no space left, a permission, \<open>shutil.Error\<close>), and
  every path is either as it was or as the operation would have left it.
\<close>

definition interruptible :: "executor \<Rightarrow> bool" where
  "interruptible run_in_executor \<longleftrightarrow>
     (\<forall>f fs. run_in_executor f fs = f fs
        \<or> (\<exists>e fs'. run_in_executor f fs = (Inl e, fs')
              \<and> (\<forall>q. fs' q = fs q \<or> fs' q = snd (f fs) q)))"

text \<open>
  The handler takes every \<open>FileNotFoundError\<close> for an absent target. An executor
  does not mislead it when a \<open>FileNotFoundError\<close> that it gives back is always the
  one that the operation raised.
\<close>

definition own_not_found :: "executor \<Rightarrow> bool" where
  "own_not_found run_in_executor \<longleftrightarrow>
     (\<forall>f fs fs'. run_in_executor f fs = (Inl FileNotFoundError, fs') \<longrightarrow>
        f fs = (Inl FileNotFoundError, fs'))"

text \<open>
  What may be taken for granted of the runner, for one command line and its index
  prefix. First, it changes no path other than those that start with the prefix.
  Second, it raises unless the exit code is 0, and when it returns there is a file
  at the prefix followed by a dot.
\<close>

definition writes_below :: "runner \<Rightarrow> string list \<Rightarrow> path \<Rightarrow> bool" where
  "writes_below run_subprocess command index \<longleftrightarrow>
     (\<forall>fs q. \<not> prefix index q \<longrightarrow> snd (run_subprocess command fs) q = fs q)"

definition returns_built :: "runner \<Rightarrow> string list \<Rightarrow> path \<Rightarrow> bool" where
  "returns_built run_subprocess command index \<longleftrightarrow>
     (\<forall>fs c. fst (run_subprocess command fs) = Inr c \<longrightarrow>
        c = 0 \<and> (\<exists>q. prefix (index @ ''.'') q \<and> snd (run_subprocess command fs) q \<noteq> None))"

text \<open>
  The layout of a job: the entries that \<open>check_db\<close> stored, the staged FASTA and the
  index prefix lying below the working directory, the staged FASTA not being an index
  file, and neither of the working and the final path being a prefix of the other.
\<close>

definition job_layout ::
  "job_params \<Rightarrow> string \<Rightarrow> path \<Rightarrow> path \<Rightarrow> path \<Rightarrow> path \<Rightarrow> path \<Rightarrow> bool" where
  "job_layout job_params ident file dst src fasta index \<longleftrightarrow>
     job_params ''subtraction_id'' = Some ident
   \<and> job_params ''file_path'' = Some file
   \<and> job_params ''subtraction_path'' = Some dst
   \<and> job_params ''temp_subtraction_path'' = Some src
   \<and> job_params ''temp_fasta_path'' = Some fasta
   \<and> job_params ''temp_index_path'' = Some index
   \<and> prefix src fasta \<and> prefix src index \<and> \<not> prefix (index @ ''.'') fasta
   \<and> \<not> prefix dst src \<and> \<not> prefix src dst"

text \<open>
  The two stages of the record during a job. At first the record exists and is not
  ready, and the final directory does not exist. Once \<open>bowtie_build\<close> has returned,
  the record is ready and the log holds the run of the indexer that returned; when
  the runner is one that returns only after a successful exit (\<open>built\<close>), the exit
  code in the log is 0 and an index file exists. After the copy the final directory
  and the working directory are both there and hold the same entries.
\<close>

definition pending :: "path \<Rightarrow> string \<Rightarrow> world \<Rightarrow> bool" where
  "pending dst ident w \<longleftrightarrow>
     files w dst = None \<and> \<not> is_ready ident w \<and> subtraction w ident \<noteq> None"

definition committed :: "bool \<Rightarrow> string \<Rightarrow> string list \<Rightarrow> path \<Rightarrow> world \<Rightarrow> bool" where
  "committed built ident command index w \<longleftrightarrow>
     is_ready ident w \<and> returned command w
   \<and> (built \<longrightarrow> logged command w \<and> indexed index w)"

definition copied :: "path \<Rightarrow> path \<Rightarrow> world \<Rightarrow> bool" where
  "copied src dst w \<longleftrightarrow>
     files w dst = Some Dir \<and> files w src = Some Dir
   \<and> (\<forall>r. files w (dst @ ''/'' @ r) = files w (src @ ''/'' @ r))"

text \<open>
  Whatever exists below the final directory is the same as the entry of that name
  below the working directory: nothing is at the final location alone.
\<close>

definition mirrored :: "path \<Rightarrow> path \<Rightarrow> world \<Rightarrow> bool" where
  "mirrored src dst w \<longleftrightarrow>
     (\<forall>r. files w (dst @ ''/'' @ r) = None
        \<or> files w (dst @ ''/'' @ r) = files w (src @ ''/'' @ r))"

section \<open>Path resolution\<close>

lemma lower_char_slash: "lower_char c = CHR ''/'' \<longleftrightarrow> c = CHR ''/''"
  by (cases c) (simp add: lower_char_def)

lemma normalised_hd:
  "s \<noteq> [] \<Longrightarrow> hd (lower (replace_space s)) = CHR ''/'' \<longleftrightarrow> hd s = CHR ''/''"
  by (cases s) (auto simp: lower_def replace_space_def lower_char_slash)

lemma normalised_Nil: "lower (replace_space s) = [] \<longleftrightarrow> s = []"
  by (simp add: lower_def replace_space_def)

lemma join2_plain:
  "plain_root p \<Longrightarrow> b = [] \<or> hd b \<noteq> CHR ''/'' \<Longrightarrow> join2 p b = p @ ''/'' @ b"
  by (auto simp: join2_def plain_root_def)

lemma plain_root_append: "plain_name s \<Longrightarrow> plain_root (p @ ''/'' @ s)"
  by (auto simp: plain_root_def plain_name_def)

text \<open>
  C4. \<open>check_db\<close> stores the permanent path as \<open>data_path\<close> joined with
  \<open>subtractions\<close> and the identifier with spaces replaced by underscores and in lower
  case, the source path as \<open>data_path\<close> joined with \<open>files\<close> and the file identifier,
  and the temporary paths as \<open>temp_path\<close> joined with the identifier as it is (then
  \<open>subtraction.fa\<close> and \<open>reference\<close>); the identifier itself stays as it was. For
  plain roots and names the joins are concatenations with slashes.
\<close>

theorem check_db_resolves_paths:
  assumes "job_params ''subtraction_id'' = Some sid"
    and "job_params ''file_id'' = Some fid"
  shows "\<exists>jp. check_db job_params data_path temp_path = Inr (''check_db completed'', jp)
    \<and> jp ''subtraction_path'' =
        Some (os_path_join data_path [''subtractions'', lower (replace_space sid)])
    \<and> jp ''file_path'' = Some (os_path_join data_path [''files'', fid])
    \<and> jp ''temp_subtraction_path'' = Some (os_path_join temp_path [sid])
    \<and> jp ''temp_fasta_path'' = Some (os_path_join temp_path [sid, ''subtraction.fa''])
    \<and> jp ''temp_index_path'' = Some (os_path_join temp_path [sid, ''reference''])
    \<and> jp ''subtraction_id'' = Some sid
    \<and> jp ''file_id'' = Some fid
    \<and> (plain_root data_path \<and> plain_root temp_path \<and> plain_name sid \<and> plain_name fid \<longrightarrow>
         jp ''subtraction_path'' =
           Some (data_path @ ''/subtractions/'' @ lower (replace_space sid))
       \<and> jp ''file_path'' = Some (data_path @ ''/files/'' @ fid)
       \<and> jp ''temp_subtraction_path'' = Some (temp_path @ ''/'' @ sid)
       \<and> jp ''temp_fasta_path'' = Some (temp_path @ ''/'' @ sid @ ''/subtraction.fa'')
       \<and> jp ''temp_index_path'' = Some (temp_path @ ''/'' @ sid @ ''/reference''))"
proof -
  define jp where "jp = job_params
       (''subtraction_path'' \<mapsto>
          os_path_join data_path [''subtractions'', lower (replace_space sid)],
        ''temp_subtraction_path'' \<mapsto> os_path_join temp_path [sid],
        ''file_path'' \<mapsto> os_path_join data_path [''files'', fid],
        ''temp_fasta_path'' \<mapsto> os_path_join (os_path_join temp_path [sid]) [''subtraction.fa''],
        ''temp_index_path'' \<mapsto> os_path_join (os_path_join temp_path [sid]) [''reference''])"
  have run: "check_db job_params data_path temp_path = Inr (''check_db completed'', jp)"
    using assms by (simp add: check_db_def param_def Let_def jp_def)
  have nest: "os_path_join (os_path_join temp_path [sid]) [b] = os_path_join temp_path [sid, b]"
    for b by (simp add: os_path_join_def)
  have e1: "jp ''subtraction_path'' =
        Some (os_path_join data_path [''subtractions'', lower (replace_space sid)])"
    and e2: "jp ''file_path'' = Some (os_path_join data_path [''files'', fid])"
    and e3: "jp ''temp_subtraction_path'' = Some (os_path_join temp_path [sid])"
    and e4: "jp ''temp_fasta_path'' = Some (os_path_join temp_path [sid, ''subtraction.fa''])"
    and e5: "jp ''temp_index_path'' = Some (os_path_join temp_path [sid, ''reference''])"
    and e6: "jp ''subtraction_id'' = Some sid"
    and e7: "jp ''file_id'' = Some fid"
    using assms by (simp_all add: jp_def nest)
  have literal: "os_path_join data_path [''subtractions'', lower (replace_space sid)]
        = data_path @ ''/subtractions/'' @ lower (replace_space sid)
      \<and> os_path_join data_path [''files'', fid] = data_path @ ''/files/'' @ fid
      \<and> os_path_join temp_path [sid] = temp_path @ ''/'' @ sid
      \<and> os_path_join temp_path [sid, ''subtraction.fa'']
          = temp_path @ ''/'' @ sid @ ''/subtraction.fa''
      \<and> os_path_join temp_path [sid, ''reference''] = temp_path @ ''/'' @ sid @ ''/reference''"
    if p: "plain_root data_path" "plain_root temp_path" "plain_name sid" "plain_name fid"
  proof -
    have d1: "join2 data_path ''subtractions'' = data_path @ ''/subtractions''"
      and d2: "join2 data_path ''files'' = data_path @ ''/files''"
      using p(1) by (simp_all add: join2_plain)
    have r1: "plain_root (data_path @ ''/subtractions'')"
      and r2: "plain_root (data_path @ ''/files'')"
      by (simp_all add: plain_root_def)
    have n: "lower (replace_space sid) = [] \<or> hd (lower (replace_space sid)) \<noteq> CHR ''/''"
      using p(3) by (simp add: plain_name_def normalised_hd)
    have f: "fid = [] \<or> hd fid \<noteq> CHR ''/''" and s: "sid = [] \<or> hd sid \<noteq> CHR ''/''"
      using p(3,4) by (simp_all add: plain_name_def)
    have t: "join2 temp_path sid = temp_path @ ''/'' @ sid"
      using p(2) s by (simp add: join2_plain)
    have rt: "plain_root (temp_path @ ''/'' @ sid)"
      using p(3) by (rule plain_root_append)
    show ?thesis
      using join2_plain[OF r1 n] join2_plain[OF r2 f] join2_plain[OF rt, of "''subtraction.fa''"]
        join2_plain[OF rt, of "''reference''"]
      by (simp add: os_path_join_def d1 d2 t)
  qed
  show ?thesis
  proof (intro exI[of _ jp] conjI impI)
    assume "plain_root data_path \<and> plain_root temp_path \<and> plain_name sid \<and> plain_name fid"
    then have l: "os_path_join data_path [''subtractions'', lower (replace_space sid)]
        = data_path @ ''/subtractions/'' @ lower (replace_space sid)
      \<and> os_path_join data_path [''files'', fid] = data_path @ ''/files/'' @ fid
      \<and> os_path_join temp_path [sid] = temp_path @ ''/'' @ sid
      \<and> os_path_join temp_path [sid, ''subtraction.fa'']
          = temp_path @ ''/'' @ sid @ ''/subtraction.fa''
      \<and> os_path_join temp_path [sid, ''reference''] = temp_path @ ''/'' @ sid @ ''/reference''"
      using literal by blast
    show "jp ''subtraction_path'' =
           Some (data_path @ ''/subtractions/'' @ lower (replace_space sid))"
      using e1 l by simp
    show "jp ''file_path'' = Some (data_path @ ''/files/'' @ fid)"
      using e2 l by simp
    show "jp ''temp_subtraction_path'' = Some (temp_path @ ''/'' @ sid)"
      using e3 l by simp
    show "jp ''temp_fasta_path'' = Some (temp_path @ ''/'' @ sid @ ''/subtraction.fa'')"
      using e4 l by simp
    show "jp ''temp_index_path'' = Some (temp_path @ ''/'' @ sid @ ''/reference'')"
      using e5 l by simp
  qed (fact run e1 e2 e3 e4 e5 e6 e7)+
qed

text \<open>The job \<open>Host A\<close> with file \<open>f1\<close>, under \<open>/data\<close> and \<open>/tmp\<close>.\<close>

theorem check_db_resolves_paths_witness:
  "\<exists>jp. check_db [''subtraction_id'' \<mapsto> ''Host A'', ''file_id'' \<mapsto> ''f1''] ''/data'' ''/tmp''
          = Inr (''check_db completed'', jp)
    \<and> jp ''subtraction_path'' = Some ''/data/subtractions/host_a''
    \<and> jp ''file_path'' = Some ''/data/files/f1''
    \<and> jp ''temp_subtraction_path'' = Some ''/tmp/Host A''
    \<and> jp ''temp_fasta_path'' = Some ''/tmp/Host A/subtraction.fa''
    \<and> jp ''temp_index_path'' = Some ''/tmp/Host A/reference''
    \<and> jp ''subtraction_id'' = Some ''Host A''"
  using check_db_resolves_paths
    [of "[''subtraction_id'' \<mapsto> ''Host A'', ''file_id'' \<mapsto> ''f1'']" "''Host A''" "''f1''"
        "''/data''" "''/tmp''"]
  by (auto simp: plain_root_def plain_name_def lower_def replace_space_def lower_char_def)

section \<open>Sequencing\<close>

lemma io_bind_Inl: "m w = (Inl e, w') \<Longrightarrow> io_bind m k w = (Inl e, w')"
  by (simp add: io_bind_def)

lemma io_bind_Inr: "m w = (Inr x, w') \<Longrightarrow> io_bind m k w = k x w'"
  by (simp add: io_bind_def)

lemma io_param_Some: "job_params k = Some v \<Longrightarrow> io_param job_params k w = (Inr v, w)"
  by (simp add: io_param_def param_def)

lemma io_param_None: "job_params k = None \<Longrightarrow> io_param job_params k w = (Inl (KeyError k), w)"
  by (simp add: io_param_def param_def)

lemma await_executor_eq:
  "run_in_executor f (files w) = (r, fs') \<Longrightarrow>
     await_executor run_in_executor f w = (r, w\<lparr>files := fs'\<rparr>)"
  by (simp add: await_executor_def)

section \<open>The cleanup handler and the exceptions of the removal\<close>

text \<open>
  C10. Whatever the executor gives back for the removal: when it returns or raises
  \<open>FileNotFoundError\<close>, the handler goes on and deletes the record; when it raises
  any other exception, the handler raises that exception and the collection is as it
  was.
\<close>

theorem delete_subtraction_swallows_only_not_found:
  assumes "job_params ''subtraction_path'' = Some p"
    and "job_params ''subtraction_id'' = Some ident"
    and "run_in_executor (rm p True) (files w) = (r, fs')"
  shows "(r = Inr () \<or> r = Inl FileNotFoundError \<longrightarrow>
            delete_subtraction job_params run_in_executor w =
              (Inr ''delete_subtraction completed'',
               w\<lparr>files := fs', subtraction := (subtraction w)(ident := None)\<rparr>))
       \<and> (\<forall>e. r = Inl e \<and> e \<noteq> FileNotFoundError \<longrightarrow>
            delete_subtraction job_params run_in_executor w = (Inl e, w\<lparr>files := fs'\<rparr>)
          \<and> subtraction (snd (delete_subtraction job_params run_in_executor w)) = subtraction w)"
proof -
  let ?guarded = "except_FileNotFoundError
      (io_bind (io_param job_params ''subtraction_path'')
         (\<lambda>p. await_executor run_in_executor (rm p True)))"
  have body: "io_bind (io_param job_params ''subtraction_path'')
         (\<lambda>p. await_executor run_in_executor (rm p True)) w = (r, w\<lparr>files := fs'\<rparr>)"
    using assms(1,3) by (simp add: io_bind_def io_param_Some await_executor_eq)
  have rest: "io_bind (io_param job_params ''subtraction_id'')
        (\<lambda>ident. io_bind (db_delete_one ident)
        (\<lambda>_. io_return ''delete_subtraction completed'')) v =
      (Inr ''delete_subtraction completed'', v\<lparr>subtraction := (subtraction v)(ident := None)\<rparr>)"
    for v
    using assms(2)
    by (simp add: io_bind_def io_param_Some db_delete_one_def delete_one_def io_return_def)
  show ?thesis
  proof (intro conjI impI allI)
    assume "r = Inr () \<or> r = Inl FileNotFoundError"
    then have "?guarded w = (Inr (), w\<lparr>files := fs'\<rparr>)"
      using body by (auto simp: except_FileNotFoundError_def)
    then show "delete_subtraction job_params run_in_executor w =
        (Inr ''delete_subtraction completed'',
         w\<lparr>files := fs', subtraction := (subtraction w)(ident := None)\<rparr>)"
      unfolding delete_subtraction_def by (simp add: io_bind_Inr rest)
  next
    fix e
    assume e: "r = Inl e \<and> e \<noteq> FileNotFoundError"
    then have "?guarded w = (Inl e, w\<lparr>files := fs'\<rparr>)"
      using body by (cases e) (simp_all add: except_FileNotFoundError_def)
    then show raised: "delete_subtraction job_params run_in_executor w = (Inl e, w\<lparr>files := fs'\<rparr>)"
      unfolding delete_subtraction_def by (simp add: io_bind_Inl)
    show "subtraction (snd (delete_subtraction job_params run_in_executor w)) = subtraction w"
      by (simp add: raised)
  qed
qed

lemma parents_final_example:
  "parents ''/data/subtractions/host_a'' = [''/data'', ''/data/subtractions'']"
  by code_simp

lemma rm_blocked_example:
  "run_direct (rm ''/data/subtractions/host_a'' True) (files blocked_world)
     = (Inl NotADirectoryError, files blocked_world)"
  by (simp add: run_direct_def rm_def os_remove_def blocked_def parents_final_example
      is_file_def blocked_world_def)

text \<open>
  In \<open>blocked_world\<close> the removal raises \<open>NotADirectoryError\<close>: the handler raises it
  and the record of \<open>Host A\<close> is still there.
\<close>

theorem delete_subtraction_swallows_only_not_found_witness:
  "delete_subtraction example_params run_direct blocked_world
      = (Inl NotADirectoryError, blocked_world)
   \<and> subtraction (snd (delete_subtraction example_params run_direct blocked_world)) ''Host A''
      = Some [''ready'' \<mapsto> BBool False]"
  using delete_subtraction_swallows_only_not_found
    [of example_params "''/data/subtractions/host_a''" "''Host A''" run_direct blocked_world
        "Inl NotADirectoryError" "files blocked_world", OF _ _ rm_blocked_example]
  by (simp add: example_params_def blocked_world_def)

section \<open>The command line of the indexer\<close>

lemma digit_val_digit_char: "d < 10 \<Longrightarrow> digit_val (digit_char d) = d"
proof -
  assume "d < 10"
  then have "d \<in> {0, 1, 2, 3, 4, 5, 6, 7, 8, 9}" by auto
  then show ?thesis
    by (auto simp: digit_val_def digit_char_def)
qed

lemma digit_char_not_minus: "d < 10 \<Longrightarrow> digit_char d \<noteq> CHR ''-''"
proof -
  assume "d < 10"
  then have "d \<in> {0, 1, 2, 3, 4, 5, 6, 7, 8, 9}" by auto
  then show ?thesis
    by (auto simp: digit_char_def)
qed

lemma nat_of_str_snoc: "nat_of_str (s @ [c]) = 10 * nat_of_str s + digit_val c"
  by (simp add: nat_of_str_def)

lemma nat_of_str_str_nat: "nat_of_str (str_nat n) = n"
proof (induction n rule: str_nat.induct)
  case (1 n)
  show ?case
  proof (cases "n < 10")
    case True
    then show ?thesis
      by (subst str_nat.simps) (simp add: nat_of_str_def digit_val_digit_char)
  next
    case False
    then have "nat_of_str (str_nat (n div 10)) = n div 10"
      using "1.IH" by simp
    then show ?thesis
      using False
      by (subst str_nat.simps) (simp add: nat_of_str_snoc digit_val_digit_char)
  qed
qed

lemma str_nat_first: "str_nat n \<noteq> [] \<and> hd (str_nat n) \<noteq> CHR ''-''"
proof (induction n rule: str_nat.induct)
  case (1 n)
  show ?case
  proof (cases "n < 10")
    case True
    then show ?thesis
      by (subst (1 2) str_nat.simps) (simp add: digit_char_not_minus)
  next
    case False
    then show ?thesis
      using "1.IH" by (subst (1 2) str_nat.simps) simp
  qed
qed

lemma int_of_str_str_int: "int_of_str (str_int i) = i"
proof (cases "i < 0")
  case True
  then show ?thesis
    by (simp add: int_of_str_def str_int_def nat_of_str_str_nat)
next
  case False
  obtain c cs where s: "str_nat (nat i) = c # cs" and c: "c \<noteq> CHR ''-''"
    using str_nat_first[of "nat i"] by (cases "str_nat (nat i)") auto
  have "int (nat_of_str (c # cs)) = i"
    using nat_of_str_str_nat[of "nat i"] False by (simp add: s)
  then show ?thesis
    using False c by (simp add: int_of_str_def str_int_def s)
qed

text \<open>
  C6. \<open>bowtie_build\<close> hands the runner one command line: \<open>bowtie2-build\<close>, the
  FASTA-input flag \<open>-f\<close>, \<open>--threads\<close> with the decimal string of
  \<open>number_of_processes\<close>, the staged FASTA and the index prefix. The log of the
  subprocesses grows by exactly that one entry. When the runner gives back exit code
  0 the step completes and marks the record ready; when the runner raises, the step
  raises the same exception and the collection is as it was.
\<close>

theorem bowtie_build_runs_indexer_once:
  assumes "job_params ''temp_fasta_path'' = Some fasta"
    and "job_params ''temp_index_path'' = Some index"
    and "job_params ''subtraction_id'' = Some ident"
    and "run_subprocess (bowtie_command n fasta index) (files w) = (r, fs')"
  shows "bowtie_command n fasta index =
           [''bowtie2-build'', ''-f'', ''--threads'', str_int n, fasta, index]
       \<and> int_of_str (bowtie_command n fasta index ! 3) = n
       \<and> spawned (snd (bowtie_build job_params n run_subprocess w)) =
           spawned w @ [(bowtie_command n fasta index, r)]
       \<and> (r = Inr 0 \<longrightarrow>
            bowtie_build job_params n run_subprocess w =
              (Inr ''bowtie_build completed'',
               w\<lparr>files := fs',
                 spawned := spawned w @ [(bowtie_command n fasta index, r)],
                 subtraction := update_one ident [(''ready'', BBool True)] (subtraction w)\<rparr>))
       \<and> (\<forall>e. r = Inl e \<longrightarrow>
            bowtie_build job_params n run_subprocess w =
              (Inl e, w\<lparr>files := fs',
                        spawned := spawned w @ [(bowtie_command n fasta index, r)]\<rparr>))"
proof -
  let ?cmd = "bowtie_command n fasta index"
  let ?w1 = "w\<lparr>files := fs', spawned := spawned w @ [(?cmd, r)]\<rparr>"
  have sub: "await_subprocess run_subprocess ?cmd w =
      (case r of Inl e \<Rightarrow> Inl e | Inr code \<Rightarrow> Inr (), ?w1)"
    using assms(4) by (simp add: await_subprocess_def)
  have run: "bowtie_build job_params n run_subprocess w =
      (case r of
         Inl e \<Rightarrow> (Inl e, ?w1)
       | Inr code \<Rightarrow>
           (Inr ''bowtie_build completed'',
            ?w1\<lparr>subtraction := update_one ident [(''ready'', BBool True)] (subtraction w)\<rparr>))"
    using assms(1-3) sub
    by (simp add: bowtie_build_def io_bind_def io_param_def param_def db_update_one_def
        io_return_def split: sum.splits)
  have log: "spawned (snd (bowtie_build job_params n run_subprocess w)) = spawned w @ [(?cmd, r)]"
    by (simp add: run split: sum.splits)
  have ok: "bowtie_build job_params n run_subprocess w =
      (Inr ''bowtie_build completed'',
       w\<lparr>files := fs', spawned := spawned w @ [(?cmd, r)],
         subtraction := update_one ident [(''ready'', BBool True)] (subtraction w)\<rparr>)"
    if "r = Inr 0"
    using that by (simp add: run)
  have bad: "bowtie_build job_params n run_subprocess w = (Inl e, ?w1)" if "r = Inl e" for e
    using that by (simp add: run)
  show ?thesis
    using log ok bad by (simp add: bowtie_command_def int_of_str_str_int)
qed

lemma bowtie2_build_staged:
  "bowtie2_build (bowtie_command 4 ''/tmp/Host A/subtraction.fa'' ''/tmp/Host A/reference'')
       (files staged_world) =
     (Inr 0,
      snd (bowtie2_build
             (bowtie_command 4 ''/tmp/Host A/subtraction.fa'' ''/tmp/Host A/reference'')
             (files staged_world)))"
proof -
  have "fst (bowtie2_build
             (bowtie_command 4 ''/tmp/Host A/subtraction.fa'' ''/tmp/Host A/reference'')
             (files staged_world)) = Inr 0"
    by code_simp
  then show ?thesis
    by (metis prod.collapse)
qed

lemma four_digits: "str_int 4 = ''4'' \<and> int_of_str ''4'' = 4"
  by code_simp

text \<open>The staged example with four processes: the indexer is run once, with \<open>4\<close>.\<close>

theorem bowtie_build_runs_indexer_once_witness:
  "fst (bowtie_build example_params 4 bowtie2_build staged_world) = Inr ''bowtie_build completed''
   \<and> map fst (spawned (snd (bowtie_build example_params 4 bowtie2_build staged_world))) =
       [[''bowtie2-build'', ''-f'', ''--threads'', ''4'',
         ''/tmp/Host A/subtraction.fa'', ''/tmp/Host A/reference'']]
   \<and> int_of_str ''4'' = 4"
  using bowtie_build_runs_indexer_once
    [of example_params "''/tmp/Host A/subtraction.fa''" "''/tmp/Host A/reference''" "''Host A''"
        bowtie2_build 4 staged_world "Inr 0", OF _ _ _ bowtie2_build_staged]
  by (simp add: example_params_def staged_world_def example_world_def four_digits)

section \<open>What the steps do to the collection\<close>

lemma io_bind_subtraction:
  assumes "\<And>v. subtraction (snd (m v)) = subtraction v"
    and "\<And>x v. subtraction (snd (k x v)) = subtraction v"
  shows "subtraction (snd (io_bind m k w)) = subtraction w"
proof (cases "m w")
  case (Pair r w')
  have w': "subtraction w' = subtraction w"
    using assms(1)[of w] Pair by simp
  show ?thesis
  proof (cases r)
    case (Inl e)
    then show ?thesis using Pair w' by (simp add: io_bind_def)
  next
    case (Inr x)
    then show ?thesis using Pair w' assms(2)[of x w'] by (simp add: io_bind_def)
  qed
qed

lemma io_param_subtraction: "subtraction (snd (io_param job_params k w)) = subtraction w"
  by (simp add: io_param_def)

lemma io_return_subtraction: "subtraction (snd (io_return x w)) = subtraction w"
  by (simp add: io_return_def)

lemma await_executor_subtraction:
  "subtraction (snd (await_executor run_in_executor f w)) = subtraction w"
  by (simp add: await_executor_def split: prod.splits)

lemmas keeps_subtraction =
  io_bind_subtraction io_param_subtraction io_return_subtraction await_executor_subtraction

lemma make_subtraction_dir_subtraction:
  "subtraction (snd (make_subtraction_dir job_params run_in_executor w)) = subtraction w"
  unfolding make_subtraction_dir_def by (intro keeps_subtraction)

lemma unpack_subtraction:
  "subtraction (snd (unpack job_params n run_in_executor w)) = subtraction w"
  unfolding unpack_def by (intro keeps_subtraction)

lemma compress_subtraction:
  "subtraction (snd (compress job_params n run_in_executor w)) = subtraction w"
  unfolding compress_def by (intro keeps_subtraction)

lemma set_stats_cases:
  "snd (set_stats job_params w) = w
   \<or> (\<exists>ident gc count.
         snd (set_stats job_params w) =
           w\<lparr>subtraction :=
               update_one ident [(''gc'', BFractions gc), (''count'', BInt count)]
                 (subtraction w)\<rparr>)"
  by (auto simp: set_stats_def io_bind_def io_param_def calculate_fasta_gc_def
      db_update_one_def io_return_def
      split: sum.splits prod.splits fdata.splits)

lemma update_one_None: "update_one ident sets c i = None \<longleftrightarrow> c i = None"
  by (simp add: update_one_def split: option.splits)

lemma update_one_stats_field:
  "f \<noteq> ''gc'' \<Longrightarrow> f \<noteq> ''count'' \<Longrightarrow>
     map_option (\<lambda>doc. doc f)
       (update_one ident [(''gc'', g), (''count'', n)] c i) = map_option (\<lambda>doc. doc f) (c i)"
  by (simp add: update_one_def set_fields_def split: option.splits)

text \<open>
  C9. \<open>set_stats\<close> leaves the files alone, neither adds nor removes a document, and
  in every document leaves every field other than \<open>gc\<close> and \<open>count\<close> as it was,
  \<open>ready\<close> among them. The steps \<open>make_subtraction_dir\<close>, \<open>unpack\<close> and \<open>compress\<close> do
  not touch the collection at all, whatever the executor does. So among the steps
  only \<open>bowtie_build\<close> can change \<open>ready\<close>.
\<close>

theorem set_stats_changes_only_gc_and_count:
  "files (snd (set_stats job_params w)) = files w
   \<and> (subtraction (snd (set_stats job_params w)) i = None \<longleftrightarrow> subtraction w i = None)
   \<and> (f \<noteq> ''gc'' \<and> f \<noteq> ''count'' \<longrightarrow>
        field_of (snd (set_stats job_params w)) i f = field_of w i f)
   \<and> field_of (snd (set_stats job_params w)) i ''ready'' = field_of w i ''ready''
   \<and> subtraction (snd (make_subtraction_dir job_params run_in_executor w)) = subtraction w
   \<and> subtraction (snd (unpack job_params n run_in_executor w)) = subtraction w
   \<and> subtraction (snd (compress job_params n run_in_executor w)) = subtraction w"
proof -
  consider (same) "snd (set_stats job_params w) = w"
    | (upd) ident gc count where
      "snd (set_stats job_params w) =
         w\<lparr>subtraction :=
             update_one ident [(''gc'', BFractions gc), (''count'', BInt count)]
               (subtraction w)\<rparr>"
    using set_stats_cases[of job_params w] by blast
  then have stats: "files (snd (set_stats job_params w)) = files w
      \<and> (subtraction (snd (set_stats job_params w)) i = None \<longleftrightarrow> subtraction w i = None)
      \<and> (\<forall>g. g \<noteq> ''gc'' \<and> g \<noteq> ''count'' \<longrightarrow>
            field_of (snd (set_stats job_params w)) i g = field_of w i g)"
  proof cases
    case same
    then show ?thesis by (simp add: field_of_def)
  next
    case upd
    then show ?thesis
      by (simp add: field_of_def update_one_None update_one_stats_field)
  qed
  then show ?thesis
    by (simp add: make_subtraction_dir_subtraction unpack_subtraction compress_subtraction)
qed

lemma set_stats_staged:
  "fst (set_stats example_params staged_world) = Inr ''set_stats completed''
   \<and> field_of (snd (set_stats example_params staged_world)) ''Host A'' ''count''
       = Some (Some (BInt 1))
   \<and> field_of staged_world ''Host A'' ''ready'' = Some (Some (BBool False))
   \<and> field_of staged_world ''Host A'' ''name'' = Some (Some (BStr ''Host A''))"
  by code_simp

text \<open>
  On the staged example \<open>set_stats\<close> completes and stores the count 1; \<open>ready\<close> is
  still false and the field \<open>name\<close> is still there.
\<close>

theorem set_stats_changes_only_gc_and_count_witness:
  "fst (set_stats example_params staged_world) = Inr ''set_stats completed''
   \<and> field_of (snd (set_stats example_params staged_world)) ''Host A'' ''count''
       = Some (Some (BInt 1))
   \<and> field_of (snd (set_stats example_params staged_world)) ''Host A'' ''ready''
       = Some (Some (BBool False))
   \<and> field_of (snd (set_stats example_params staged_world)) ''Host A'' ''name''
       = Some (Some (BStr ''Host A''))"
  using set_stats_changes_only_gc_and_count
    [of example_params staged_world "''Host A''" "''name''" run_direct 1]
    set_stats_staged
  by simp

section \<open>The cleanup handler on the file system\<close>

lemma rm_recursive:
  "rm p True fs =
     (if blocked fs p then (Inl NotADirectoryError, fs)
      else case fs p of
             None \<Rightarrow> (Inl FileNotFoundError, fs)
           | Some (File d) \<Rightarrow> (Inr (), fs(p := None))
           | Some Dir \<Rightarrow> (Inr (), \<lambda>q. if under p q then None else fs q))"
  by (simp add: rm_def os_remove_def shutil_rmtree_def split: option.splits node.splits)

lemma parents_shorter: "a \<in> set (parents p) \<Longrightarrow> length a < length p"
  by (auto simp: parents_def)

lemma parents_not_under: "a \<in> set (parents p) \<Longrightarrow> \<not> under p a"
proof
  assume a: "a \<in> set (parents p)" and u: "under p a"
  from u have "length p \<le> length a"
    by (auto simp: under_def prefix_def)
  with parents_shorter[OF a] show False by simp
qed

lemma blocked_cong:
  "(\<And>a. a \<in> set (parents p) \<Longrightarrow> fs' a = fs a) \<Longrightarrow> blocked fs' p = blocked fs p"
  by (simp add: blocked_def list_ex_iff is_file_def)

lemma delete_subtraction_direct:
  assumes "job_params ''subtraction_path'' = Some p"
    and "job_params ''subtraction_id'' = Some ident"
  shows "delete_subtraction job_params run_direct w =
     (if blocked (files w) p then (Inl NotADirectoryError, w)
      else (Inr ''delete_subtraction completed'',
            w\<lparr>files := (case files w p of
                           None \<Rightarrow> files w
                         | Some (File d) \<Rightarrow> (files w)(p := None)
                         | Some Dir \<Rightarrow> (\<lambda>q. if under p q then None else files w q)),
              subtraction := (subtraction w)(ident := None)\<rparr>))"
  using assms
  by (simp add: delete_subtraction_def io_bind_def io_param_def param_def await_executor_def
      run_direct_def rm_recursive except_FileNotFoundError_def db_delete_one_def delete_one_def
      io_return_def split: option.splits node.splits)

text \<open>
  C1, as the code has it. The handler removes one tree, the one at
  \<open>subtraction_path\<close>: unless an ancestor of that path is a regular file (then the
  removal raises and the handler with it), the handler completes, the path is gone,
  a directory there is gone with everything below it, and the record is deleted.
  Every path outside that tree, the working directory included, is as it was.
\<close>

theorem delete_subtraction_removes_final_tree:
  assumes "job_params ''subtraction_path'' = Some p"
    and "job_params ''subtraction_id'' = Some ident"
    and "\<not> blocked (files w) p"
  shows "fst (delete_subtraction job_params run_direct w) = Inr ''delete_subtraction completed''
       \<and> files (snd (delete_subtraction job_params run_direct w)) p = None
       \<and> (files w p = Some Dir \<longrightarrow>
            (\<forall>q. under p q \<longrightarrow> files (snd (delete_subtraction job_params run_direct w)) q = None))
       \<and> subtraction (snd (delete_subtraction job_params run_direct w)) ident = None
       \<and> (\<forall>q. \<not> under p q \<longrightarrow>
            files (snd (delete_subtraction job_params run_direct w)) q = files w q)"
  using assms(3)
  by (auto simp: delete_subtraction_direct[OF assms(1,2)] under_def
      split: option.splits node.splits)

lemma finalised_not_blocked: "\<not> blocked (files finalised_world) ''/data/subtractions/host_a''"
  by code_simp

lemma finalised_final_dir: "files finalised_world ''/data/subtractions/host_a'' = Some Dir"
  by code_simp

lemma finalised_paths:
  "under ''/data/subtractions/host_a'' ''/data/subtractions/host_a/reference.1.bt2''
   \<and> \<not> under ''/data/subtractions/host_a'' ''/tmp/Host A/reference.1.bt2''
   \<and> files finalised_world ''/tmp/Host A/reference.1.bt2'' = Some (File (Raw ''index''))"
  by code_simp

text \<open>
  After a job that had already copied its files: the handler removes the final
  directory with the index in it and the record; the index in the working directory
  is still there.
\<close>

theorem delete_subtraction_removes_final_tree_witness:
  "fst (delete_subtraction example_params run_direct finalised_world)
     = Inr ''delete_subtraction completed''
   \<and> files (snd (delete_subtraction example_params run_direct finalised_world))
       ''/data/subtractions/host_a'' = None
   \<and> files (snd (delete_subtraction example_params run_direct finalised_world))
       ''/data/subtractions/host_a/reference.1.bt2'' = None
   \<and> subtraction (snd (delete_subtraction example_params run_direct finalised_world))
       ''Host A'' = None
   \<and> files (snd (delete_subtraction example_params run_direct finalised_world))
       ''/tmp/Host A/reference.1.bt2'' = Some (File (Raw ''index''))"
  using delete_subtraction_removes_final_tree
    [of example_params "''/data/subtractions/host_a''" "''Host A''" finalised_world,
     OF _ _ finalised_not_blocked]
    finalised_final_dir finalised_paths
  by (simp add: example_params_def)

text \<open>
  C1 as the spec states it fails: a job whose indexing step raises ends
  \<open>Failed\<close>, the handler runs and deletes the record, and the staged FASTA file and
  the working directory are still there.
\<close>

theorem cleanup_leaves_working_directory_counterexample:
  "fst (run_workflow ''Host A'' ''f1'' ''/data'' ''/tmp'' 4 run_direct
          (\<lambda>command fs. (Inl (OtherError ''bowtie2-build''), fs)) example_world)
     = Failed (OtherError ''bowtie2-build'')
   \<and> subtraction
       (last (snd (run_workflow ''Host A'' ''f1'' ''/data'' ''/tmp'' 4 run_direct
          (\<lambda>command fs. (Inl (OtherError ''bowtie2-build''), fs)) example_world)))
       ''Host A'' = None
   \<and> files
       (last (snd (run_workflow ''Host A'' ''f1'' ''/data'' ''/tmp'' 4 run_direct
          (\<lambda>command fs. (Inl (OtherError ''bowtie2-build''), fs)) example_world)))
       ''/tmp/Host A/subtraction.fa''
      = Some (File (Raw (''>s1'' @ [CHR 0x0A] @ ''ATGC'' @ [CHR 0x0A])))
   \<and> files
       (last (snd (run_workflow ''Host A'' ''f1'' ''/data'' ''/tmp'' 4 run_direct
          (\<lambda>command fs. (Inl (OtherError ''bowtie2-build''), fs)) example_world)))
       ''/tmp/Host A'' = Some Dir
   \<and> fst (delete_subtraction example_params run_direct staged_world)
      = Inr ''delete_subtraction completed''
   \<and> files (snd (delete_subtraction example_params run_direct staged_world))
       ''/tmp/Host A/subtraction.fa''
      = Some (File (Raw (''>s1'' @ [CHR 0x0A] @ ''ATGC'' @ [CHR 0x0A])))"
  by code_simp

section \<open>Running the cleanup handler twice\<close>

text \<open>
  C7. When the handler has run to its end, running it again on the world it left
  returns normally and leaves that world exactly as it is: the missing target makes
  the removal raise \<open>FileNotFoundError\<close>, which is swallowed, and deleting the
  record again changes nothing. More generally a missing target never makes the
  handler raise.
\<close>

theorem delete_subtraction_twice:
  assumes "job_params ''subtraction_path'' = Some p"
    and "job_params ''subtraction_id'' = Some ident"
    and "delete_subtraction job_params run_direct w = (Inr msg, w1)"
  shows "delete_subtraction job_params run_direct w1 =
           (Inr ''delete_subtraction completed'', w1)
       \<and> (\<forall>v::world. \<not> blocked (files v) p \<and> files v p = None \<longrightarrow>
            delete_subtraction job_params run_direct v =
              (Inr ''delete_subtraction completed'',
               v\<lparr>subtraction := (subtraction v)(ident := None)\<rparr>))"
proof (intro conjI allI impI)
  note run = delete_subtraction_direct[OF assms(1,2)]
  have nb: "\<not> blocked (files w) p"
    using assms(3) run[of w] by (auto split: if_splits)
  define F where "F = (case files w p of
                           None \<Rightarrow> files w
                         | Some (File d) \<Rightarrow> (files w)(p := None)
                         | Some Dir \<Rightarrow> (\<lambda>q. if under p q then None else files w q))"
  have w1: "w1 = w\<lparr>files := F, subtraction := (subtraction w)(ident := None)\<rparr>"
    using assms(3) run[of w] nb by (simp add: F_def)
  have gone: "F p = None"
    by (simp add: F_def under_def split: option.splits node.splits)
  have "F a = files w a" if "a \<in> set (parents p)" for a
  proof -
    have "\<not> under p a" using that by (rule parents_not_under)
    moreover have "a \<noteq> p" using parents_shorter[OF that] by auto
    ultimately show ?thesis
      by (simp add: F_def split: option.splits node.splits)
  qed
  then have nb1: "\<not> blocked F p"
    using nb blocked_cong[of p F "files w"] by simp
  show "delete_subtraction job_params run_direct w1 =
      (Inr ''delete_subtraction completed'', w1)"
    using nb1 gone by (simp add: run w1)
next
  fix v :: world
  assume "\<not> blocked (files v) p \<and> files v p = None"
  then show "delete_subtraction job_params run_direct v =
      (Inr ''delete_subtraction completed'', v\<lparr>subtraction := (subtraction v)(ident := None)\<rparr>)"
    by (simp add: delete_subtraction_direct[OF assms(1,2)])
qed

lemma example_params_keys:
  "example_params ''subtraction_path'' = Some ''/data/subtractions/host_a''"
  "example_params ''subtraction_id'' = Some ''Host A''"
  "example_params ''temp_subtraction_path'' = Some ''/tmp/Host A''"
  "example_params ''temp_fasta_path'' = Some ''/tmp/Host A/subtraction.fa''"
  "example_params ''temp_index_path'' = Some ''/tmp/Host A/reference''"
  "example_params ''file_path'' = Some ''/data/files/f1''"
  by (simp_all add: example_params_def)

lemma first_run_finalised:
  "delete_subtraction example_params run_direct finalised_world =
     (Inr ''delete_subtraction completed'',
      snd (delete_subtraction example_params run_direct finalised_world))"
proof -
  have "fst (delete_subtraction example_params run_direct finalised_world)
      = Inr ''delete_subtraction completed''"
    by code_simp
  then show ?thesis
    by (metis prod.collapse)
qed

text \<open>The handler run twice after a job that had already copied its files.\<close>

theorem delete_subtraction_twice_witness:
  "delete_subtraction example_params run_direct
      (snd (delete_subtraction example_params run_direct finalised_world)) =
     (Inr ''delete_subtraction completed'',
      snd (delete_subtraction example_params run_direct finalised_world))
   \<and> fst (delete_subtraction example_params run_direct finalised_world)
       = Inr ''delete_subtraction completed''"
proof
  show "delete_subtraction example_params run_direct
      (snd (delete_subtraction example_params run_direct finalised_world)) =
     (Inr ''delete_subtraction completed'',
      snd (delete_subtraction example_params run_direct finalised_world))"
    using delete_subtraction_twice
      [OF example_params_keys(1) example_params_keys(2) first_run_finalised]
    by (rule conjunct1)
  show "fst (delete_subtraction example_params run_direct finalised_world)
       = Inr ''delete_subtraction completed''"
    by (metis first_run_finalised fst_conv)
qed

section \<open>The compression step\<close>

lemma parents_append:
  assumes "CHR ''/'' \<notin> set s"
  shows "parents (p @ s) = parents p"
proof (cases "p = []")
  case True
  have "filter (\<lambda>i. s ! i = CHR ''/'') [1..<length s] = []"
    using assms by (auto simp: filter_empty_conv) (metis nth_mem)
  then show ?thesis using True by (simp add: parents_def)
next
  case False
  then have n: "1 \<le> length p" by (cases p) auto
  have split: "[1..<length (p @ s)] = [1..<length p] @ [length p..<length p + length s]"
    using upt_add_eq_append[OF n, of "length s"] by simp
  have tail: "filter (\<lambda>i. (p @ s) ! i = CHR ''/'') [length p..<length p + length s] = []"
  proof -
    have "(p @ s) ! i \<noteq> CHR ''/''" if "length p \<le> i" "i < length p + length s" for i
    proof -
      have "(p @ s) ! i = s ! (i - length p)" using that by (simp add: nth_append)
      moreover have "s ! (i - length p) \<in> set s" using that by simp
      ultimately show ?thesis using assms by metis
    qed
    then show ?thesis by (auto simp: filter_empty_conv)
  qed
  have head: "filter (\<lambda>i. (p @ s) ! i = CHR ''/'') [1..<length p]
      = filter (\<lambda>i. p ! i = CHR ''/'') [1..<length p]"
    by (rule filter_cong) (auto simp: nth_append)
  have takes: "map (\<lambda>i. take i (p @ s)) (filter (\<lambda>i. p ! i = CHR ''/'') [1..<length p])
      = map (\<lambda>i. take i p) (filter (\<lambda>i. p ! i = CHR ''/'') [1..<length p])"
    by (rule map_cong) auto
  have "parents (p @ s) =
      map (\<lambda>i. take i (p @ s))
        (filter (\<lambda>i. (p @ s) ! i = CHR ''/'')
           ([1..<length p] @ [length p..<length p + length s]))"
    by (simp only: parents_def split)
  also have "\<dots> = map (\<lambda>i. take i (p @ s))
        (filter (\<lambda>i. (p @ s) ! i = CHR ''/'') [1..<length p])"
    by (simp only: filter_append tail append_Nil2)
  also have "\<dots> = map (\<lambda>i. take i (p @ s)) (filter (\<lambda>i. p ! i = CHR ''/'') [1..<length p])"
    by (simp only: head)
  also have "\<dots> = parents p"
    by (simp only: takes parents_def)
  finally show ?thesis .
qed

lemma parents_gz: "parents (p @ ''.gz'') = parents p"
  by (rule parents_append) simp

lemma compress_file_Inr:
  assumes "compress_file p (p @ ''.gz'') n fs = (Inr (), fs1)"
  shows "\<exists>d. fs p = Some (File d) \<and> \<not> blocked fs p \<and> fs1 = fs(p @ ''.gz'' \<mapsto> File (Gz d))"
  using assms
  by (auto simp: compress_file_def read_file_def write_file_def
      split: if_splits option.splits node.splits sum.splits)

lemma compress_file_absent:
  "\<not> blocked fs p \<Longrightarrow> fs p = None \<Longrightarrow> compress_file p t n fs = (Inl FileNotFoundError, fs)"
  by (simp add: compress_file_def read_file_def)

lemma rm_after_compress_file:
  assumes "fs p = Some (File d)" and "\<not> blocked fs p"
  shows "rm p False (fs(p @ ''.gz'' \<mapsto> File (Gz d))) =
           (Inr (), (fs(p @ ''.gz'' \<mapsto> File (Gz d)))(p := None))"
proof -
  let ?fs1 = "fs(p @ ''.gz'' \<mapsto> File (Gz d))"
  have "?fs1 a = fs a" if "a \<in> set (parents p)" for a
    using parents_shorter[OF that] by auto
  then have "blocked ?fs1 p = blocked fs p"
    by (rule blocked_cong)
  then show ?thesis
    using assms by (simp add: rm_def os_remove_def)
qed

lemma rm_absent:
  "\<not> blocked fs p \<Longrightarrow> fs p = None \<Longrightarrow> rm p recursive fs = (Inl FileNotFoundError, fs)"
  by (simp add: rm_def os_remove_def)

lemma compress_run:
  assumes "job_params ''temp_fasta_path'' = Some fasta"
    and "job_params ''temp_subtraction_path'' = Some src"
    and "job_params ''subtraction_path'' = Some dst"
  shows "compress job_params n run_in_executor w =
     (case run_in_executor (compress_file fasta (fasta @ ''.gz'') n) (files w) of
        (Inl e, fs1) \<Rightarrow> (Inl e, w\<lparr>files := fs1\<rparr>)
      | (Inr u, fs1) \<Rightarrow>
     (case run_in_executor (rm fasta False) fs1 of
        (Inl e, fs2) \<Rightarrow> (Inl e, w\<lparr>files := fs2\<rparr>)
      | (Inr u, fs2) \<Rightarrow>
     (case run_in_executor (shutil_copytree src dst) fs2 of
        (Inl e, fs3) \<Rightarrow> (Inl e, w\<lparr>files := fs3\<rparr>)
      | (Inr u, fs3) \<Rightarrow> (Inr ''compress completed'', w\<lparr>files := fs3\<rparr>))))"
  using assms
  by (simp add: compress_def io_bind_def io_param_def param_def await_executor_def io_return_def
      split: prod.splits sum.splits)

text \<open>
  C8, as the code has it. The step first writes the gzip of the staged FASTA at the
  same path plus \<open>.gz\<close>, then removes the uncompressed file, then copies the working
  directory. The removal has no exception handler: whatever exception it raises,
  \<open>FileNotFoundError\<close> included, the step raises; and a step that starts without the
  uncompressed file raises \<open>FileNotFoundError\<close> and changes nothing.
\<close>

theorem compress_gzips_then_removes:
  assumes "job_params ''temp_fasta_path'' = Some fasta"
    and "job_params ''temp_subtraction_path'' = Some src"
    and "job_params ''subtraction_path'' = Some dst"
  shows "(\<forall>msg w'. compress job_params n run_direct w = (Inr msg, w') \<longrightarrow>
            (\<exists>d. files w fasta = Some (File d)
               \<and> compress_file fasta (fasta @ ''.gz'') n (files w) =
                   (Inr (), (files w)(fasta @ ''.gz'' \<mapsto> File (Gz d)))
               \<and> rm fasta False ((files w)(fasta @ ''.gz'' \<mapsto> File (Gz d))) =
                   (Inr (), (files w)(fasta @ ''.gz'' \<mapsto> File (Gz d), fasta := None))
               \<and> shutil_copytree src dst
                     ((files w)(fasta @ ''.gz'' \<mapsto> File (Gz d), fasta := None)) =
                   (Inr (), files w')))
       \<and> (\<not> blocked (files w) fasta \<and> files w fasta = None \<longrightarrow>
            compress job_params n run_direct w = (Inl FileNotFoundError, w))
       \<and> (\<forall>run_in_executor fs1 fs2 e.
            run_in_executor (compress_file fasta (fasta @ ''.gz'') n) (files w) = (Inr (), fs1)
            \<and> run_in_executor (rm fasta False) fs1 = (Inl e, fs2) \<longrightarrow>
            compress job_params n run_in_executor w = (Inl e, w\<lparr>files := fs2\<rparr>))"
proof (intro conjI allI impI)
  fix msg w'
  assume ok: "compress job_params n run_direct w = (Inr msg, w')"
  have run: "compress job_params n run_direct w =
     (case compress_file fasta (fasta @ ''.gz'') n (files w) of
        (Inl e, fs1) \<Rightarrow> (Inl e, w\<lparr>files := fs1\<rparr>)
      | (Inr u, fs1) \<Rightarrow>
     (case rm fasta False fs1 of
        (Inl e, fs2) \<Rightarrow> (Inl e, w\<lparr>files := fs2\<rparr>)
      | (Inr u, fs2) \<Rightarrow>
     (case shutil_copytree src dst fs2 of
        (Inl e, fs3) \<Rightarrow> (Inl e, w\<lparr>files := fs3\<rparr>)
      | (Inr u, fs3) \<Rightarrow> (Inr ''compress completed'', w\<lparr>files := fs3\<rparr>))))"
    by (simp add: compress_run[OF assms] run_direct_def
        cong: prod.case_cong sum.case_cong)
  obtain r1 fs1 where c1: "compress_file fasta (fasta @ ''.gz'') n (files w) = (r1, fs1)"
    by (cases "compress_file fasta (fasta @ ''.gz'') n (files w)")
  have r1: "r1 = Inr ()"
    using ok run c1 by (cases r1) simp_all
  obtain d where d: "files w fasta = Some (File d)" "\<not> blocked (files w) fasta"
      "fs1 = (files w)(fasta @ ''.gz'' \<mapsto> File (Gz d))"
    using compress_file_Inr[of fasta n "files w" fs1] c1 r1 by auto
  have c2: "rm fasta False fs1 = (Inr (), fs1(fasta := None))"
    using rm_after_compress_file[OF d(1,2)] d(3) by simp
  obtain r3 fs3 where c3: "shutil_copytree src dst (fs1(fasta := None)) = (r3, fs3)"
    by (cases "shutil_copytree src dst (fs1(fasta := None))")
  have "r3 = Inr () \<and> w' = w\<lparr>files := fs3\<rparr>"
    using ok run c1 r1 c2 c3 by (cases r3) auto
  then have "shutil_copytree src dst (fs1(fasta := None)) = (Inr (), files w')"
    using c3 by simp
  then show "\<exists>d. files w fasta = Some (File d)
       \<and> compress_file fasta (fasta @ ''.gz'') n (files w) =
           (Inr (), (files w)(fasta @ ''.gz'' \<mapsto> File (Gz d)))
       \<and> rm fasta False ((files w)(fasta @ ''.gz'' \<mapsto> File (Gz d))) =
           (Inr (), (files w)(fasta @ ''.gz'' \<mapsto> File (Gz d), fasta := None))
       \<and> shutil_copytree src dst
             ((files w)(fasta @ ''.gz'' \<mapsto> File (Gz d), fasta := None)) =
           (Inr (), files w')"
    using d c1 r1 c2 by (intro exI[of _ d]) simp
next
  assume "\<not> blocked (files w) fasta \<and> files w fasta = None"
  then show "compress job_params n run_direct w = (Inl FileNotFoundError, w)"
    by (simp add: compress_run[OF assms] run_direct_def compress_file_absent)
next
  fix run_in_executor :: executor and fs1 fs2 :: filesystem and e :: exn
  assume "run_in_executor (compress_file fasta (fasta @ ''.gz'') n) (files w) = (Inr (), fs1)
      \<and> run_in_executor (rm fasta False) fs1 = (Inl e, fs2)"
  then show "compress job_params n run_in_executor w = (Inl e, w\<lparr>files := fs2\<rparr>)"
    by (simp add: compress_run[OF assms])
qed


lemma compress_indexed:
  "compress example_params 4 run_direct indexed_world =
     (Inr ''compress completed'', snd (compress example_params 4 run_direct indexed_world))"
proof -
  have "fst (compress example_params 4 run_direct indexed_world) = Inr ''compress completed''"
    by code_simp
  then show ?thesis
    by (metis prod.collapse)
qed

lemma unstaged_absent:
  "\<not> blocked (files unstaged_world) ''/tmp/Host A/subtraction.fa''
   \<and> files unstaged_world ''/tmp/Host A/subtraction.fa'' = None"
  by code_simp

text \<open>
  On the example after indexing the step completes, by way of the three calls; on
  the example with nothing staged it raises \<open>FileNotFoundError\<close>.
\<close>

theorem compress_gzips_then_removes_witness:
  "(\<exists>d. files indexed_world ''/tmp/Host A/subtraction.fa'' = Some (File d)
      \<and> compress_file ''/tmp/Host A/subtraction.fa'' (''/tmp/Host A/subtraction.fa'' @ ''.gz'') 4
           (files indexed_world) =
          (Inr (), (files indexed_world)
                     (''/tmp/Host A/subtraction.fa'' @ ''.gz'' \<mapsto> File (Gz d)))
      \<and> rm ''/tmp/Host A/subtraction.fa'' False
           ((files indexed_world)(''/tmp/Host A/subtraction.fa'' @ ''.gz'' \<mapsto> File (Gz d))) =
          (Inr (), (files indexed_world)
                     (''/tmp/Host A/subtraction.fa'' @ ''.gz'' \<mapsto> File (Gz d),
                      ''/tmp/Host A/subtraction.fa'' := None))
      \<and> shutil_copytree ''/tmp/Host A'' ''/data/subtractions/host_a''
           ((files indexed_world)
              (''/tmp/Host A/subtraction.fa'' @ ''.gz'' \<mapsto> File (Gz d),
               ''/tmp/Host A/subtraction.fa'' := None)) =
          (Inr (), files (snd (compress example_params 4 run_direct indexed_world))))
   \<and> compress example_params 4 run_direct unstaged_world
       = (Inl FileNotFoundError, unstaged_world)"
proof
  show "\<exists>d. files indexed_world ''/tmp/Host A/subtraction.fa'' = Some (File d)
      \<and> compress_file ''/tmp/Host A/subtraction.fa'' (''/tmp/Host A/subtraction.fa'' @ ''.gz'') 4
           (files indexed_world) =
          (Inr (), (files indexed_world)
                     (''/tmp/Host A/subtraction.fa'' @ ''.gz'' \<mapsto> File (Gz d)))
      \<and> rm ''/tmp/Host A/subtraction.fa'' False
           ((files indexed_world)(''/tmp/Host A/subtraction.fa'' @ ''.gz'' \<mapsto> File (Gz d))) =
          (Inr (), (files indexed_world)
                     (''/tmp/Host A/subtraction.fa'' @ ''.gz'' \<mapsto> File (Gz d),
                      ''/tmp/Host A/subtraction.fa'' := None))
      \<and> shutil_copytree ''/tmp/Host A'' ''/data/subtractions/host_a''
           ((files indexed_world)
              (''/tmp/Host A/subtraction.fa'' @ ''.gz'' \<mapsto> File (Gz d),
               ''/tmp/Host A/subtraction.fa'' := None)) =
          (Inr (), files (snd (compress example_params 4 run_direct indexed_world)))"
    using compress_gzips_then_removes
      [OF example_params_keys(4) example_params_keys(3) example_params_keys(1),
       of 4 indexed_world]
      compress_indexed
    by blast
  show "compress example_params 4 run_direct unstaged_world
       = (Inl FileNotFoundError, unstaged_world)"
    using compress_gzips_then_removes
      [OF example_params_keys(4) example_params_keys(3) example_params_keys(1),
       of 4 unstaged_world]
      unstaged_absent
    by blast
qed

text \<open>
  C8 as the spec states it fails: with the working directory in place and the
  uncompressed copy already removed, the removal raises \<open>FileNotFoundError\<close>, and so
  does the step, which writes no compressed copy.
\<close>

theorem compress_absent_copy_counterexample:
  "fst (rm ''/tmp/Host A/subtraction.fa'' False (files unstaged_world)) = Inl FileNotFoundError
   \<and> fst (compress example_params 4 run_direct unstaged_world) = Inl FileNotFoundError
   \<and> files (snd (compress example_params 4 run_direct unstaged_world))
       ''/tmp/Host A/subtraction.fa.gz'' = None"
  by code_simp

section \<open>The base fractions\<close>

lemma counts_partition:
  "base_count CHR ''a'' cs + base_count CHR ''t'' cs + base_count CHR ''g'' cs
     + base_count CHR ''c'' cs + residual_count cs = length cs"
  by (induction cs) (auto simp: base_count_def residual_count_def)

lemma fractions_add:
  "0 < n \<Longrightarrow> fraction a n + fraction b n = fraction (a + b) n"
  by (simp add: fraction_def add_divide_distrib)

lemma fraction_self: "0 < n \<Longrightarrow> fraction n n = 1"
  by (simp add: fraction_def)

lemma fraction_eq_iff: "0 < n \<Longrightarrow> fraction a n = fraction b n \<longleftrightarrow> a = b"
  by (simp add: fraction_def)

lemma sum_base_fractions:
  "sum_list (map snd (base_fractions ls)) =
     fraction (base_count CHR ''a'' (sequence_chars ls)) (length (sequence_chars ls))
   + fraction (base_count CHR ''t'' (sequence_chars ls)) (length (sequence_chars ls))
   + fraction (base_count CHR ''g'' (sequence_chars ls)) (length (sequence_chars ls))
   + fraction (base_count CHR ''c'' (sequence_chars ls)) (length (sequence_chars ls))
   + fraction (residual_count (sequence_chars ls)) (length (sequence_chars ls))"
  by (simp add: base_fractions_def Let_def)

lemma sum_canonical_fractions:
  "sum_list (map snd (take 4 (base_fractions ls))) =
     fraction (base_count CHR ''a'' (sequence_chars ls)) (length (sequence_chars ls))
   + fraction (base_count CHR ''t'' (sequence_chars ls)) (length (sequence_chars ls))
   + fraction (base_count CHR ''g'' (sequence_chars ls)) (length (sequence_chars ls))
   + fraction (base_count CHR ''c'' (sequence_chars ls)) (length (sequence_chars ls))"
  by (simp add: base_fractions_def Let_def)

text \<open>
  C5, for the stats computation as the spec describes it, with the residual bucket.
  With at least one sequence character the reported fractions sum to exactly 1, and
  those of the four canonical bases alone sum to 1 exactly when no character lies
  outside the canonical alphabet. With no sequence character every fraction is 0:
  nothing is divided by zero.
\<close>

theorem base_fractions_sum:
  "(0 < length (sequence_chars ls) \<longrightarrow>
      sum_list (map snd (fst (compute_stats ls))) = 1
    \<and> (sum_list (map snd (take 4 (fst (compute_stats ls)))) = 1
         \<longleftrightarrow> residual_count (sequence_chars ls) = 0))
   \<and> (length (sequence_chars ls) = 0 \<longrightarrow>
        map snd (fst (compute_stats ls)) = [0, 0, 0, 0, 0])"
proof (intro conjI impI)
  let ?cs = "sequence_chars ls"
  let ?n = "length ?cs"
  let ?four = "base_count CHR ''a'' ?cs + base_count CHR ''t'' ?cs
      + base_count CHR ''g'' ?cs + base_count CHR ''c'' ?cs"
  assume n: "0 < ?n"
  have all: "?four + residual_count ?cs = ?n"
    by (rule counts_partition)
  have "sum_list (map snd (fst (compute_stats ls))) = fraction (?four + residual_count ?cs) ?n"
    using n by (simp add: compute_stats_def sum_base_fractions fractions_add)
  then show "sum_list (map snd (fst (compute_stats ls))) = 1"
    using n by (simp only: all fraction_self)
  have four: "sum_list (map snd (take 4 (fst (compute_stats ls)))) = fraction ?four ?n"
    using n by (simp add: compute_stats_def sum_canonical_fractions fractions_add)
  have "sum_list (map snd (take 4 (fst (compute_stats ls)))) = 1
      \<longleftrightarrow> fraction ?four ?n = fraction ?n ?n"
    using n by (simp only: four fraction_self)
  also have "\<dots> \<longleftrightarrow> ?four = ?n"
    using n by (rule fraction_eq_iff)
  also have "\<dots> \<longleftrightarrow> residual_count ?cs = 0"
    using all by arith
  finally show "sum_list (map snd (take 4 (fst (compute_stats ls)))) = 1
      \<longleftrightarrow> residual_count (sequence_chars ls) = 0" .
next
  assume "length (sequence_chars ls) = 0"
  then show "map snd (fst (compute_stats ls)) = [0, 0, 0, 0, 0]"
    by (simp add: compute_stats_def base_fractions_def fraction_def)
qed

lemma three_files:
  "0 < length (sequence_chars [''>s1'', ''ATGC'', ''>s2'', ''AATT''])"
  "fst (compute_stats [''>s1'', ''ATGC'', ''>s2'', ''AATT'']) =
       [(''A'', 3 / 8), (''T'', 3 / 8), (''G'', 1 / 8), (''C'', 1 / 8), (''N'', 0)]"
  "0 < length (sequence_chars [''>s1'', ''acgn'', ''NNNN''])"
  "fst (compute_stats [''>s1'', ''acgn'', ''NNNN'']) =
       [(''A'', 1 / 8), (''T'', 0), (''G'', 1 / 8), (''C'', 1 / 8), (''N'', 5 / 8)]"
  "length (sequence_chars [''>s1'']) = 0"
  by code_simp+

text \<open>
  Two records \<open>ATGC\<close> and \<open>AATT\<close>: the fractions 3/8, 3/8, 1/8, 1/8 and 0 sum to 1.
  A record \<open>acgn\<close>, \<open>NNNN\<close>: the fractions 1/8, 0, 1/8, 1/8 and 5/8 sum to 1. A
  header alone: every fraction is 0.
\<close>

theorem base_fractions_sum_witness:
  "fst (compute_stats [''>s1'', ''ATGC'', ''>s2'', ''AATT'']) =
       [(''A'', 3 / 8), (''T'', 3 / 8), (''G'', 1 / 8), (''C'', 1 / 8), (''N'', 0)]
   \<and> sum_list (map snd (fst (compute_stats [''>s1'', ''ATGC'', ''>s2'', ''AATT'']))) = 1
   \<and> fst (compute_stats [''>s1'', ''acgn'', ''NNNN'']) =
       [(''A'', 1 / 8), (''T'', 0), (''G'', 1 / 8), (''C'', 1 / 8), (''N'', 5 / 8)]
   \<and> sum_list (map snd (fst (compute_stats [''>s1'', ''acgn'', ''NNNN'']))) = 1
   \<and> map snd (fst (compute_stats [''>s1''])) = [0, 0, 0, 0, 0]"
proof (intro conjI)
  show "fst (compute_stats [''>s1'', ''ATGC'', ''>s2'', ''AATT'']) =
       [(''A'', 3 / 8), (''T'', 3 / 8), (''G'', 1 / 8), (''C'', 1 / 8), (''N'', 0)]"
    by (rule three_files(2))
  show "sum_list (map snd (fst (compute_stats [''>s1'', ''ATGC'', ''>s2'', ''AATT'']))) = 1"
    using base_fractions_sum[of "[''>s1'', ''ATGC'', ''>s2'', ''AATT'']", THEN conjunct1]
      three_files(1)
    by (elim impE conjE) assumption+
  show "fst (compute_stats [''>s1'', ''acgn'', ''NNNN'']) =
       [(''A'', 1 / 8), (''T'', 0), (''G'', 1 / 8), (''C'', 1 / 8), (''N'', 5 / 8)]"
    by (rule three_files(4))
  show "sum_list (map snd (fst (compute_stats [''>s1'', ''acgn'', ''NNNN'']))) = 1"
    using base_fractions_sum[of "[''>s1'', ''acgn'', ''NNNN'']", THEN conjunct1]
      three_files(3)
    by (elim impE conjE) assumption+
  show "map snd (fst (compute_stats [''>s1''])) = [0, 0, 0, 0, 0]"
    using base_fractions_sum[of "[''>s1'']", THEN conjunct2] three_files(5)
    by (elim impE conjE) assumption+
qed

section \<open>Which paths the file operations change\<close>

lemma parents_prefix: "a \<in> set (parents p) \<Longrightarrow> prefix a p"
  by (auto simp: parents_def take_is_prefix)

lemma os_makedirs_frame: "\<not> prefix q p \<Longrightarrow> snd (os_makedirs p ok fs) q = fs q"
  by (auto simp: os_makedirs_def dest: parents_prefix split: option.splits node.splits)

lemma write_file_frame: "q \<noteq> p \<Longrightarrow> snd (write_file p d fs) q = fs q"
  by (simp add: write_file_def)

lemma copy_or_decompress_frame:
  "q \<noteq> dst \<Longrightarrow> snd (copy_or_decompress src dst n fs) q = fs q"
  by (auto simp: copy_or_decompress_def write_file_def
      split: sum.splits prod.splits fdata.splits if_splits)

lemma compress_file_frame: "q \<noteq> t \<Longrightarrow> snd (compress_file p t n fs) q = fs q"
  by (auto simp: compress_file_def write_file_def split: sum.splits)

lemma compress_file_keeps: "fs q \<noteq> None \<Longrightarrow> snd (compress_file p t n fs) q \<noteq> None"
  by (auto simp: compress_file_def write_file_def split: sum.splits)

lemma rm_file_frame: "q \<noteq> p \<Longrightarrow> snd (rm p False fs) q = fs q"
  by (simp add: rm_def os_remove_def split: option.splits node.splits)

lemma rm_frame: "\<not> under p q \<Longrightarrow> snd (rm p True fs) q = fs q"
  by (auto simp: rm_recursive under_def split: option.splits node.splits)

lemma rm_absent_unchanged: "fs p = None \<Longrightarrow> snd (rm p recursive fs) = fs"
  by (simp add: rm_def os_remove_def)

lemma shutil_copytree_frame:
  "\<not> prefix dst q \<Longrightarrow> \<not> prefix q dst \<Longrightarrow> snd (shutil_copytree src dst fs) q = fs q"
  by (auto simp: shutil_copytree_def os_makedirs_def dest: parents_prefix append_prefixD
      split: option.splits node.splits)

section \<open>Executors that may break an operation off\<close>

lemma interruptible_frame:
  assumes "interruptible run_in_executor" and "snd (f fs) q = fs q"
  shows "snd (run_in_executor f fs) q = fs q"
  using assms unfolding interruptible_def by (metis snd_conv)

lemma interruptible_between:
  assumes "interruptible run_in_executor"
  shows "snd (run_in_executor f fs) q = fs q \<or> snd (run_in_executor f fs) q = snd (f fs) q"
  using assms unfolding interruptible_def by (metis snd_conv)

lemma interruptible_unchanged:
  assumes "interruptible run_in_executor" and "snd (f fs) = fs"
  shows "snd (run_in_executor f fs) = fs"
proof
  fix q
  from assms(2) have "snd (f fs) q = fs q" by simp
  with assms(1) show "snd (run_in_executor f fs) q = fs q" by (rule interruptible_frame)
qed

lemma interruptible_keeps:
  assumes "interruptible run_in_executor" and "snd (f fs) q \<noteq> None" and "fs q \<noteq> None"
  shows "snd (run_in_executor f fs) q \<noteq> None"
  using assms unfolding interruptible_def by (metis snd_conv)

lemma interruptible_Inr:
  assumes "interruptible run_in_executor" and "run_in_executor f fs = (Inr u, fs')"
  shows "f fs = (Inr u, fs')"
  using assms unfolding interruptible_def by (metis Inl_Inr_False fst_conv)

lemma own_not_found_Inl:
  assumes "own_not_found run_in_executor"
    and "run_in_executor f fs = (Inl FileNotFoundError, fs')"
  shows "f fs = (Inl FileNotFoundError, fs')"
  using assms unfolding own_not_found_def by blast

section \<open>The worlds the steps leave\<close>

lemma make_subtraction_dir_snd:
  "job_params ''temp_subtraction_path'' = Some src \<Longrightarrow>
     snd (make_subtraction_dir job_params run_in_executor w) =
       w\<lparr>files := snd (run_in_executor (os_makedirs src True) (files w))\<rparr>"
  by (simp add: make_subtraction_dir_def io_bind_def io_param_def param_def await_executor_def
      io_return_def split: prod.splits sum.splits)

lemma unpack_snd:
  "job_params ''file_path'' = Some file \<Longrightarrow> job_params ''temp_fasta_path'' = Some fasta \<Longrightarrow>
     snd (unpack job_params n run_in_executor w) =
       w\<lparr>files := snd (run_in_executor (copy_or_decompress file fasta n) (files w))\<rparr>"
  by (simp add: unpack_def io_bind_def io_param_def param_def await_executor_def
      io_return_def split: prod.splits sum.splits)

lemma set_stats_snd:
  "job_params ''subtraction_id'' = Some ident \<Longrightarrow>
     snd (set_stats job_params w) = w
   \<or> (\<exists>gc count.
         snd (set_stats job_params w) =
           w\<lparr>subtraction :=
               update_one ident [(''gc'', BFractions gc), (''count'', BInt count)]
                 (subtraction w)\<rparr>)"
  by (auto simp: set_stats_def io_bind_def io_param_def param_def calculate_fasta_gc_def
      db_update_one_def io_return_def
      split: sum.splits prod.splits fdata.splits option.splits)

lemma bowtie_build_run:
  assumes "job_params ''temp_fasta_path'' = Some fasta"
    and "job_params ''temp_index_path'' = Some index"
    and "job_params ''subtraction_id'' = Some ident"
  shows "bowtie_build job_params n run_subprocess w =
     (case run_subprocess (bowtie_command n fasta index) (files w) of
        (Inl e, fs') \<Rightarrow>
          (Inl e, w\<lparr>files := fs',
                    spawned := spawned w @ [(bowtie_command n fasta index, Inl e)]\<rparr>)
      | (Inr c, fs') \<Rightarrow>
          (Inr ''bowtie_build completed'',
           w\<lparr>files := fs',
             spawned := spawned w @ [(bowtie_command n fasta index, Inr c)],
             subtraction := update_one ident [(''ready'', BBool True)] (subtraction w)\<rparr>))"
  using assms
  by (simp add: bowtie_build_def io_bind_def io_param_def param_def await_subprocess_def
      db_update_one_def io_return_def split: prod.splits sum.splits)

lemma delete_subtraction_run:
  assumes "job_params ''subtraction_path'' = Some p"
    and "job_params ''subtraction_id'' = Some ident"
  shows "delete_subtraction job_params run_in_executor w =
     (case run_in_executor (rm p True) (files w) of
        (Inl e, fs') \<Rightarrow>
          (if e = FileNotFoundError
           then (Inr ''delete_subtraction completed'',
                 w\<lparr>files := fs', subtraction := (subtraction w)(ident := None)\<rparr>)
           else (Inl e, w\<lparr>files := fs'\<rparr>))
      | (Inr u, fs') \<Rightarrow>
          (Inr ''delete_subtraction completed'',
           w\<lparr>files := fs', subtraction := (subtraction w)(ident := None)\<rparr>))"
  using assms
  by (simp add: delete_subtraction_def io_bind_def io_param_def param_def await_executor_def
      except_FileNotFoundError_def db_delete_one_def delete_one_def io_return_def
      split: prod.splits sum.splits exn.splits)

section \<open>The final path before the copy\<close>

lemma under_prefix: "under d q \<Longrightarrow> prefix d q"
  by (auto simp: under_def dest: append_prefixD)

lemma layout_outside:
  assumes "job_layout job_params ident file dst src fasta index" and "prefix src q"
  shows "\<not> under dst q"
proof
  assume "under dst q"
  then have "prefix dst q" by (rule under_prefix)
  with assms(2) have "prefix src dst \<or> prefix dst src"
    by (rule prefix_same_cases)
  with assms(1) show False by (simp add: job_layout_def)
qed

lemma layout_not_above:
  assumes "job_layout job_params ident file dst src fasta index" and "under dst q"
  shows "\<not> prefix q src"
proof
  assume "prefix q src"
  moreover have "prefix dst q" using assms(2) by (rule under_prefix)
  ultimately have "prefix dst src" by (rule prefix_order.trans[rotated])
  with assms(1) show False by (simp add: job_layout_def)
qed

text \<open>
  The first four steps change no path at the final path or below it, whatever exists
  there.
\<close>

lemma make_subtraction_dir_final:
  assumes L: "job_layout job_params ident file dst src fasta index"
    and E: "interruptible run_in_executor"
    and q: "under dst q"
  shows "files (snd (make_subtraction_dir job_params run_in_executor w)) q = files w q"
proof -
  have key: "job_params ''temp_subtraction_path'' = Some src"
    using L by (simp add: job_layout_def)
  from q have "\<not> prefix q src" by (rule layout_not_above[OF L])
  then have "snd (os_makedirs src True (files w)) q = files w q"
    by (rule os_makedirs_frame)
  with E have "snd (run_in_executor (os_makedirs src True) (files w)) q = files w q"
    by (rule interruptible_frame)
  then show ?thesis
    by (simp add: make_subtraction_dir_snd[of job_params src, OF key])
qed

lemma unpack_final:
  assumes L: "job_layout job_params ident file dst src fasta index"
    and E: "interruptible run_in_executor"
    and q: "under dst q"
  shows "files (snd (unpack job_params n run_in_executor w)) q = files w q"
proof -
  have keys: "job_params ''file_path'' = Some file" "job_params ''temp_fasta_path'' = Some fasta"
    and below: "prefix src fasta"
    using L by (simp_all add: job_layout_def)
  have "q \<noteq> fasta" using layout_outside[OF L below] q by auto
  then have "snd (copy_or_decompress file fasta n (files w)) q = files w q"
    by (rule copy_or_decompress_frame)
  with E have "snd (run_in_executor (copy_or_decompress file fasta n) (files w)) q = files w q"
    by (rule interruptible_frame)
  then show ?thesis
    by (simp add: unpack_snd[OF keys])
qed

lemma set_stats_files: "files (snd (set_stats job_params w)) = files w"
  using set_stats_cases[of job_params w] by auto

lemma set_stats_spawned: "spawned (snd (set_stats job_params w)) = spawned w"
  using set_stats_cases[of job_params w] by auto

lemma bowtie_build_final:
  assumes L: "job_layout job_params ident file dst src fasta index"
    and W: "writes_below run_subprocess (bowtie_command n fasta index) index"
    and q: "under dst q"
  shows "files (snd (bowtie_build job_params n run_subprocess w)) q = files w q"
proof -
  let ?cmd = "bowtie_command n fasta index"
  have keys: "job_params ''temp_fasta_path'' = Some fasta"
      "job_params ''temp_index_path'' = Some index"
      "job_params ''subtraction_id'' = Some ident"
    and below: "prefix src index"
    using L by (simp_all add: job_layout_def)
  have "\<not> prefix index q"
  proof
    assume "prefix index q"
    with below have "prefix src q" by (rule prefix_order.trans)
    then show False using layout_outside[OF L] q by blast
  qed
  then have frame: "snd (run_subprocess ?cmd (files w)) q = files w q"
    using W by (simp add: writes_below_def)
  have "files (snd (bowtie_build job_params n run_subprocess w))
      = snd (run_subprocess ?cmd (files w))"
    by (simp add: bowtie_build_run[OF keys] split: prod.splits sum.splits)
  then show ?thesis using frame by simp
qed

lemma final_absent_step:
  assumes "final_absent dst w" and "\<And>q. under dst q \<Longrightarrow> files w' q = files w q"
  shows "final_absent dst w'"
  using assms by (simp add: final_absent_def)

lemma under_self: "under dst dst"
  by (simp add: under_def)

section \<open>The record before and after the indexing\<close>

lemma pending_step:
  assumes "pending dst ident w" and "files w' dst = files w dst"
    and "subtraction w' = subtraction w"
  shows "pending dst ident w'"
  using assms by (simp add: pending_def is_ready_def field_of_def)

lemma set_stats_pending:
  assumes L: "job_layout job_params ident file dst src fasta index"
    and P: "pending dst ident w"
  shows "pending dst ident (snd (set_stats job_params w))"
proof -
  have key: "job_params ''subtraction_id'' = Some ident"
    using L by (simp add: job_layout_def)
  from set_stats_snd[of job_params ident w, OF key] show ?thesis
  proof (elim disjE exE)
    assume "snd (set_stats job_params w) = w"
    then show ?thesis using P by simp
  next
    fix gc count
    assume "snd (set_stats job_params w) =
      w\<lparr>subtraction :=
          update_one ident [(''gc'', BFractions gc), (''count'', BInt count)] (subtraction w)\<rparr>"
    then show ?thesis
      using P
      by (simp add: pending_def is_ready_def field_of_def update_one_None
          update_one_stats_field)
  qed
qed

lemma returned_last: "returned command (w\<lparr>spawned := spawned w @ [(command, Inr c)]\<rparr>)"
  by (simp add: returned_def)

lemma bowtie_build_stage:
  assumes L: "job_layout job_params ident file dst src fasta index"
    and W: "writes_below run_subprocess (bowtie_command n fasta index) index"
    and P: "pending dst ident w"
  shows "case bowtie_build job_params n run_subprocess w of
           (Inl e, w') \<Rightarrow> pending dst ident w'
         | (Inr m, w') \<Rightarrow>
             committed (returns_built run_subprocess (bowtie_command n fasta index) index)
               ident (bowtie_command n fasta index) index w'"
proof -
  let ?cmd = "bowtie_command n fasta index"
  have keys: "job_params ''temp_fasta_path'' = Some fasta"
      "job_params ''temp_index_path'' = Some index"
      "job_params ''subtraction_id'' = Some ident"
    using L by (simp_all add: job_layout_def)
  note same = bowtie_build_final[OF L W under_self, of w]
  obtain r fs' where run: "run_subprocess ?cmd (files w) = (r, fs')"
    by (cases "run_subprocess ?cmd (files w)")
  show ?thesis
  proof (cases r)
    case (Inl e)
    then have "subtraction (snd (bowtie_build job_params n run_subprocess w)) = subtraction w"
      using run by (simp add: bowtie_build_run[OF keys])
    with P same have "pending dst ident (snd (bowtie_build job_params n run_subprocess w))"
      by (rule pending_step)
    then show ?thesis
      using Inl run by (simp add: bowtie_build_run[OF keys])
  next
    case (Inr c)
    have res: "fst (run_subprocess ?cmd (files w)) = Inr c"
        "snd (run_subprocess ?cmd (files w)) = fs'"
      using run Inr by simp_all
    have built: "c = 0 \<and> (\<exists>q. prefix (index @ ''.'') q \<and> fs' q \<noteq> None)"
      if "returns_built run_subprocess ?cmd index"
      using that res unfolding returns_built_def by blast
    obtain doc where doc: "subtraction w ident = Some doc"
      using P by (auto simp: pending_def)
    have "is_ready ident
        (w\<lparr>files := fs', spawned := spawned w @ [(?cmd, Inr c)],
           subtraction := update_one ident [(''ready'', BBool True)] (subtraction w)\<rparr>)"
      using doc by (simp add: is_ready_def field_of_def update_one_def set_fields_def)
    then show ?thesis
      using Inr run built
      by (auto simp: bowtie_build_run[OF keys] committed_def logged_def indexed_def
          returned_def)
  qed
qed

section \<open>The copy into the final directory\<close>

lemma shutil_copytree_Inr:
  assumes "shutil_copytree src dst fs = (Inr u, fs')"
  shows "fs src = Some Dir \<and> fs dst = None
       \<and> fs' = (\<lambda>q. if prefix (dst @ ''/'') q then fs (src @ drop (length dst) q)
                     else if q = dst \<or> q \<in> set (parents dst) then Some Dir
                     else fs q)"
  using assms
  by (auto simp: shutil_copytree_def os_makedirs_def
      split: if_splits option.splits node.splits)

lemma copytree_copied:
  assumes L: "job_layout job_params ident file dst src fasta index"
    and run: "shutil_copytree src dst fs = (Inr u, fs')"
  shows "fs' dst = Some Dir \<and> fs' src = Some Dir
       \<and> (\<forall>r. fs' (dst @ ''/'' @ r) = fs' (src @ ''/'' @ r))"
proof -
  have inc: "\<not> prefix dst src" "\<not> prefix src dst"
    using L by (simp_all add: job_layout_def)
  note c = shutil_copytree_Inr[OF run]
  have fs': "fs' q = (if prefix (dst @ ''/'') q then fs (src @ drop (length dst) q)
                     else if q = dst \<or> q \<in> set (parents dst) then Some Dir
                     else fs q)" for q
    using c by simp
  have outside: "fs' q = fs q" if "prefix src q" for q
  proof -
    have "\<not> prefix dst q"
    proof
      assume "prefix dst q"
      with that have "prefix src dst \<or> prefix dst src" by (rule prefix_same_cases)
      with inc show False by simp
    qed
    moreover have "\<not> prefix q dst"
    proof
      assume "prefix q dst"
      with that have "prefix src dst" by (rule prefix_order.trans)
      with inc show False by simp
    qed
    ultimately show ?thesis
      using shutil_copytree_frame[of dst q src fs] run by simp
  qed
  have d: "fs' dst = Some Dir" by (simp add: fs')
  have s: "fs' src = Some Dir" using outside[of src] c by simp
  have "fs' (dst @ ''/'' @ r) = fs' (src @ ''/'' @ r)" for r
  proof -
    have "fs' (dst @ ''/'' @ r) = fs (src @ ''/'' @ r)"
      by (simp add: fs')
    moreover have "fs' (src @ ''/'' @ r) = fs (src @ ''/'' @ r)"
      by (rule outside) simp
    ultimately show ?thesis by simp
  qed
  with d s show ?thesis by simp
qed

lemma compress_copied:
  assumes L: "job_layout job_params ident file dst src fasta index"
    and E: "interruptible run_in_executor"
    and run: "compress job_params n run_in_executor w = (Inr m, w')"
  shows "copied src dst w'"
proof -
  have keys: "job_params ''temp_fasta_path'' = Some fasta"
      "job_params ''temp_subtraction_path'' = Some src"
      "job_params ''subtraction_path'' = Some dst"
    using L by (simp_all add: job_layout_def)
  let ?gz = "fasta @ ''.gz''"
  obtain r1 fs1 where c1: "run_in_executor (compress_file fasta ?gz n) (files w) = (r1, fs1)"
    by (cases "run_in_executor (compress_file fasta ?gz n) (files w)")
  obtain r2 fs2 where c2: "run_in_executor (rm fasta False) fs1 = (r2, fs2)"
    by (cases "run_in_executor (rm fasta False) fs1")
  obtain r3 fs3 where c3: "run_in_executor (shutil_copytree src dst) fs2 = (r3, fs3)"
    by (cases "run_in_executor (shutil_copytree src dst) fs2")
  from run c1 c2 c3 obtain u3 where r3: "r3 = Inr u3" and w': "w' = w\<lparr>files := fs3\<rparr>"
    by (auto simp: compress_run[OF keys] split: sum.splits)
  have "shutil_copytree src dst fs2 = (Inr u3, fs3)"
    using interruptible_Inr[OF E] c3 r3 by blast
  from copytree_copied[OF L this] show ?thesis
    by (simp add: copied_def w')
qed

lemma layout_apart:
  assumes "job_layout job_params ident file dst src fasta index" and "prefix src q"
  shows "\<not> prefix dst q" "\<not> prefix q dst"
proof -
  have inc: "\<not> prefix dst src" "\<not> prefix src dst"
    using assms(1) by (simp_all add: job_layout_def)
  show "\<not> prefix dst q"
  proof
    assume "prefix dst q"
    with assms(2) have "prefix src dst \<or> prefix dst src" by (rule prefix_same_cases)
    with inc show False by simp
  qed
  show "\<not> prefix q dst"
  proof
    assume "prefix q dst"
    with assms(2) have "prefix src dst" by (rule prefix_order.trans)
    with inc show False by simp
  qed
qed

lemma copytree_entry:
  "snd (shutil_copytree src dst fs) (dst @ ''/'' @ r) = fs (dst @ ''/'' @ r)
 \<or> snd (shutil_copytree src dst fs) (dst @ ''/'' @ r) = fs (src @ ''/'' @ r)"
  by (auto simp: shutil_copytree_def os_makedirs_def
      split: option.splits node.splits prod.splits sum.splits if_splits)

lemma final_absent_mirrored: "final_absent dst w \<Longrightarrow> mirrored src dst w"
  by (simp add: final_absent_def mirrored_def under_def)

lemma compress_mirrored:
  assumes L: "job_layout job_params ident file dst src fasta index"
    and E: "interruptible run_in_executor"
    and A: "final_absent dst w"
  shows "mirrored src dst (snd (compress job_params n run_in_executor w))"
proof -
  have keys: "job_params ''temp_fasta_path'' = Some fasta"
      "job_params ''temp_subtraction_path'' = Some src"
      "job_params ''subtraction_path'' = Some dst"
    and below: "prefix src fasta"
    using L by (simp_all add: job_layout_def)
  let ?gz = "fasta @ ''.gz''"
  obtain r1 fs1 where c1: "run_in_executor (compress_file fasta ?gz n) (files w) = (r1, fs1)"
    by (cases "run_in_executor (compress_file fasta ?gz n) (files w)")
  obtain r2 fs2 where c2: "run_in_executor (rm fasta False) fs1 = (r2, fs2)"
    by (cases "run_in_executor (rm fasta False) fs1")
  obtain r3 fs3 where c3: "run_in_executor (shutil_copytree src dst) fs2 = (r3, fs3)"
    by (cases "run_in_executor (shutil_copytree src dst) fs2")
  have gz_below: "prefix src ?gz"
    using below by (simp add: prefix_prefix)
  have f1: "fs1 q = files w q" if "under dst q" for q
  proof -
    have "q \<noteq> ?gz" using layout_outside[OF L gz_below] that by auto
    then have "snd (compress_file fasta ?gz n (files w)) q = files w q"
      by (rule compress_file_frame)
    with E have "snd (run_in_executor (compress_file fasta ?gz n) (files w)) q = files w q"
      by (rule interruptible_frame)
    then show ?thesis by (simp add: c1)
  qed
  have f2: "fs2 q = fs1 q" if "under dst q" for q
  proof -
    have "q \<noteq> fasta" using layout_outside[OF L below] that by auto
    then have "snd (rm fasta False fs1) q = fs1 q" by (rule rm_file_frame)
    with E have "snd (run_in_executor (rm fasta False) fs1) q = fs1 q"
      by (rule interruptible_frame)
    then show ?thesis by (simp add: c2)
  qed
  have a1: "final_absent dst (w\<lparr>files := fs1\<rparr>)" and a2: "final_absent dst (w\<lparr>files := fs2\<rparr>)"
    using A f1 f2 by (simp_all add: final_absent_def)
  have m3: "mirrored src dst (w\<lparr>files := fs3\<rparr>)"
    unfolding mirrored_def
  proof
    fix r
    let ?d = "dst @ ''/'' @ r" and ?s = "src @ ''/'' @ r"
    have none: "fs2 ?d = None"
      using a2 by (simp add: final_absent_def under_def)
    have "prefix src ?s" by simp
    from layout_apart[OF L this]
    have "snd (shutil_copytree src dst fs2) ?s = fs2 ?s"
      by (rule shutil_copytree_frame)
    with E have "snd (run_in_executor (shutil_copytree src dst) fs2) ?s = fs2 ?s"
      by (rule interruptible_frame)
    then have s: "fs3 ?s = fs2 ?s" by (simp add: c3)
    from interruptible_between[OF E, of "shutil_copytree src dst" fs2 ?d]
    have "fs3 ?d = fs2 ?d \<or> fs3 ?d = snd (shutil_copytree src dst fs2) ?d"
      by (simp add: c3)
    with copytree_entry[of src dst fs2 r] have "fs3 ?d = None \<or> fs3 ?d = fs2 ?s"
      using none by auto
    then show "files (w\<lparr>files := fs3\<rparr>) ?d = None
        \<or> files (w\<lparr>files := fs3\<rparr>) ?d = files (w\<lparr>files := fs3\<rparr>) ?s"
      using s by simp
  qed
  show ?thesis
    using c1 c2 c3 a1[THEN final_absent_mirrored, of src] a2[THEN final_absent_mirrored, of src]
      m3
    by (cases r1; cases r2; cases r3) (simp_all add: compress_run[OF keys])
qed

lemma compress_spawned:
  assumes "job_params ''temp_fasta_path'' = Some fasta"
    and "job_params ''temp_subtraction_path'' = Some src"
    and "job_params ''subtraction_path'' = Some dst"
  shows "spawned (snd (compress job_params n run_in_executor w)) = spawned w"
  by (simp add: compress_run[OF assms] split: prod.splits sum.splits)

lemma compress_keeps:
  assumes L: "job_layout job_params ident file dst src fasta index"
    and E: "interruptible run_in_executor"
    and q0: "prefix (index @ ''.'') q0" "files w q0 \<noteq> None"
  shows "files (snd (compress job_params n run_in_executor w)) q0 \<noteq> None"
proof -
  have keys: "job_params ''temp_fasta_path'' = Some fasta"
      "job_params ''temp_subtraction_path'' = Some src"
      "job_params ''subtraction_path'' = Some dst"
    and below: "prefix src index"
    and nix: "\<not> prefix (index @ ''.'') fasta"
    and inc: "\<not> prefix dst src" "\<not> prefix src dst"
    using L by (simp_all add: job_layout_def)
  let ?gz = "fasta @ ''.gz''"
  obtain r1 fs1 where c1: "run_in_executor (compress_file fasta ?gz n) (files w) = (r1, fs1)"
    by (cases "run_in_executor (compress_file fasta ?gz n) (files w)")
  obtain r2 fs2 where c2: "run_in_executor (rm fasta False) fs1 = (r2, fs2)"
    by (cases "run_in_executor (rm fasta False) fs1")
  obtain r3 fs3 where c3: "run_in_executor (shutil_copytree src dst) fs2 = (r3, fs3)"
    by (cases "run_in_executor (shutil_copytree src dst) fs2")
  have q0_below: "prefix src q0"
    using q0(1) below by (meson append_prefixD prefix_order.trans)
  have k1: "fs1 q0 \<noteq> None"
  proof -
    have "snd (compress_file fasta ?gz n (files w)) q0 \<noteq> None"
      using q0(2) by (rule compress_file_keeps)
    with E have "snd (run_in_executor (compress_file fasta ?gz n) (files w)) q0 \<noteq> None"
      using q0(2) by (rule interruptible_keeps)
    then show ?thesis by (simp add: c1)
  qed
  have "q0 \<noteq> fasta" using q0(1) nix by auto
  then have "snd (rm fasta False fs1) q0 = fs1 q0" by (rule rm_file_frame)
  with E have "snd (run_in_executor (rm fasta False) fs1) q0 = fs1 q0"
    by (rule interruptible_frame)
  then have k2: "fs2 q0 \<noteq> None" using k1 by (simp add: c2)
  have k3: "fs3 q0 \<noteq> None"
  proof -
    have "\<not> prefix dst q0"
    proof
      assume "prefix dst q0"
      with q0_below have "prefix src dst \<or> prefix dst src" by (rule prefix_same_cases)
      with inc show False by simp
    qed
    moreover have "\<not> prefix q0 dst"
    proof
      assume "prefix q0 dst"
      with q0_below have "prefix src dst" by (rule prefix_order.trans)
      with inc show False by simp
    qed
    ultimately have "snd (shutil_copytree src dst fs2) q0 = fs2 q0"
      by (rule shutil_copytree_frame)
    with E have "snd (run_in_executor (shutil_copytree src dst) fs2) q0 = fs2 q0"
      by (rule interruptible_frame)
    then show ?thesis using k2 by (simp add: c3)
  qed
  show ?thesis
    using c1 c2 c3 k1 k2 k3
    by (cases r1; cases r2; cases r3) (simp_all add: compress_run[OF keys])
qed

lemma compress_committed:
  assumes L: "job_layout job_params ident file dst src fasta index"
    and E: "interruptible run_in_executor"
    and K: "committed built ident command index w"
  shows "committed built ident command index (snd (compress job_params n run_in_executor w))"
proof -
  let ?w' = "snd (compress job_params n run_in_executor w)"
  have keys: "job_params ''temp_fasta_path'' = Some fasta"
      "job_params ''temp_subtraction_path'' = Some src"
      "job_params ''subtraction_path'' = Some dst"
    using L by (simp_all add: job_layout_def)
  have s: "subtraction ?w' = subtraction w" by (rule compress_subtraction)
  have p: "spawned ?w' = spawned w" by (rule compress_spawned[OF keys])
  have "indexed index ?w'" if "indexed index w"
  proof -
    from that obtain q0 where "prefix (index @ ''.'') q0" "files w q0 \<noteq> None"
      by (auto simp: indexed_def)
    from compress_keeps[OF L E this] this(1) show ?thesis
      by (auto simp: indexed_def)
  qed
  then show ?thesis
    using K s p by (simp add: committed_def is_ready_def field_of_def returned_def logged_def)
qed

section \<open>The handler after a step that raised\<close>

lemma handler_record:
  assumes "job_params ''subtraction_path'' = Some dst"
    and "job_params ''subtraction_id'' = Some ident"
  shows "spawned (snd (delete_subtraction job_params run_in_executor w)) = spawned w
       \<and> (subtraction (snd (delete_subtraction job_params run_in_executor w)) = subtraction w
          \<or> subtraction (snd (delete_subtraction job_params run_in_executor w))
               = (subtraction w)(ident := None))"
  by (simp add: delete_subtraction_run[OF assms] split: prod.splits sum.splits)

lemma handler_unchanged:
  assumes L: "job_layout job_params ident file dst src fasta index"
    and E: "interruptible run_in_executor"
    and A: "files w dst = None"
  shows "files (snd (delete_subtraction job_params run_in_executor w)) = files w"
proof -
  have keys: "job_params ''subtraction_path'' = Some dst"
      "job_params ''subtraction_id'' = Some ident"
    using L by (simp_all add: job_layout_def)
  from A have "snd (rm dst True (files w)) = files w"
    by (rule rm_absent_unchanged)
  with E have same: "snd (run_in_executor (rm dst True) (files w)) = files w"
    by (rule interruptible_unchanged)
  obtain r fs' where run: "run_in_executor (rm dst True) (files w) = (r, fs')"
    by (cases "run_in_executor (rm dst True) (files w)")
  then have "fs' = files w" using same by simp
  then show ?thesis
    using run by (simp add: delete_subtraction_run[OF keys] split: sum.splits)
qed

lemma not_ready_deleted: "subtraction w = c(ident := None) \<Longrightarrow> \<not> is_ready ident w"
  by (simp add: is_ready_def field_of_def)

lemma handler_pending:
  assumes L: "job_layout job_params ident file dst src fasta index"
    and E: "interruptible run_in_executor"
    and P: "pending dst ident w"
  shows "files (snd (delete_subtraction job_params run_in_executor w)) dst = None
       \<and> \<not> is_ready ident (snd (delete_subtraction job_params run_in_executor w))"
proof -
  let ?h = "snd (delete_subtraction job_params run_in_executor w)"
  have keys: "job_params ''subtraction_path'' = Some dst"
      "job_params ''subtraction_id'' = Some ident"
    using L by (simp_all add: job_layout_def)
  have A: "files w dst = None" using P by (simp add: pending_def)
  have f: "files ?h dst = None"
    using handler_unchanged[OF L E A] A by simp
  from handler_record[OF keys, of run_in_executor w]
  have "subtraction ?h = subtraction w \<or> subtraction ?h = (subtraction w)(ident := None)"
    by blast
  then have "\<not> is_ready ident ?h"
  proof
    assume "subtraction ?h = subtraction w"
    then show ?thesis using P by (simp add: pending_def is_ready_def field_of_def)
  next
    assume "subtraction ?h = (subtraction w)(ident := None)"
    then show ?thesis by (rule not_ready_deleted)
  qed
  with f show ?thesis by simp
qed

lemma rm_returned: "rm p True fs = (Inr u, fs') \<Longrightarrow> fs' p = None"
  by (auto simp: rm_recursive under_def split: if_splits option.splits node.splits)

lemma rm_not_found: "rm p True fs = (Inl FileNotFoundError, fs') \<Longrightarrow> fs' p = None"
  by (auto simp: rm_recursive split: if_splits option.splits node.splits)

lemma handler_committed:
  assumes L: "job_layout job_params ident file dst src fasta index"
    and E: "interruptible run_in_executor"
    and O: "own_not_found run_in_executor"
    and K: "committed built ident command index w"
  shows "(files (snd (delete_subtraction job_params run_in_executor w)) dst = None
          \<and> \<not> is_ready ident (snd (delete_subtraction job_params run_in_executor w)))
       \<or> committed built ident command index
            (snd (delete_subtraction job_params run_in_executor w))"
proof -
  let ?h = "snd (delete_subtraction job_params run_in_executor w)"
  have keys: "job_params ''subtraction_path'' = Some dst"
      "job_params ''subtraction_id'' = Some ident"
    and below: "prefix src index"
    using L by (simp_all add: job_layout_def)
  obtain r fs' where run: "run_in_executor (rm dst True) (files w) = (r, fs')"
    by (cases "run_in_executor (rm dst True) (files w)")
  note h = delete_subtraction_run[OF keys, of run_in_executor w, unfolded run]
  consider (removed) u where "r = Inr u" | (gone) "r = Inl FileNotFoundError"
    | (raised) e where "r = Inl e" "e \<noteq> FileNotFoundError"
    by (cases r) auto
  then show ?thesis
  proof cases
    case removed
    then have "rm dst True (files w) = (Inr u, fs')"
      using interruptible_Inr[OF E] run by blast
    then have "fs' dst = None" by (rule rm_returned)
    then show ?thesis using h removed by (simp add: is_ready_def field_of_def)
  next
    case gone
    then have "rm dst True (files w) = (Inl FileNotFoundError, fs')"
      using own_not_found_Inl[OF O] run by blast
    then have "fs' dst = None" by (rule rm_not_found)
    then show ?thesis using h gone by (simp add: is_ready_def field_of_def)
  next
    case raised
    then have w': "?h = w\<lparr>files := fs'\<rparr>" using h by simp
    have "indexed index (w\<lparr>files := fs'\<rparr>)" if "indexed index w"
    proof -
      from that obtain q0 where q0: "prefix (index @ ''.'') q0" "files w q0 \<noteq> None"
        by (auto simp: indexed_def)
      have "prefix src q0"
        using q0(1) below by (meson append_prefixD prefix_order.trans)
      then have "\<not> under dst q0" by (rule layout_outside[OF L])
      then have "snd (rm dst True (files w)) q0 = files w q0" by (rule rm_frame)
      with E have "snd (run_in_executor (rm dst True) (files w)) q0 = files w q0"
        by (rule interruptible_frame)
      then show ?thesis using q0 run by (auto simp: indexed_def)
    qed
    then have "committed built ident command index ?h"
      using K unfolding w'
      by (simp add: committed_def is_ready_def field_of_def returned_def logged_def)
    then show ?thesis by simp
  qed
qed

lemma rm_entry: "snd (rm p True fs) q = fs q \<or> snd (rm p True fs) q = None"
  by (auto simp: rm_recursive split: option.splits node.splits)

lemma handler_mirrored:
  assumes L: "job_layout job_params ident file dst src fasta index"
    and E: "interruptible run_in_executor"
    and M: "mirrored src dst w"
  shows "mirrored src dst (snd (delete_subtraction job_params run_in_executor w))"
proof -
  let ?fs' = "snd (run_in_executor (rm dst True) (files w))"
  have keys: "job_params ''subtraction_path'' = Some dst"
      "job_params ''subtraction_id'' = Some ident"
    using L by (simp_all add: job_layout_def)
  have files: "files (snd (delete_subtraction job_params run_in_executor w)) = ?fs'"
    by (simp add: delete_subtraction_run[OF keys] split: prod.splits sum.splits)
  show ?thesis
    unfolding mirrored_def files
  proof
    fix r
    let ?d = "dst @ ''/'' @ r" and ?s = "src @ ''/'' @ r"
    have "prefix src ?s" by simp
    then have "\<not> under dst ?s" by (rule layout_outside[OF L])
    then have "snd (rm dst True (files w)) ?s = files w ?s" by (rule rm_frame)
    with E have s: "?fs' ?s = files w ?s" by (rule interruptible_frame)
    from interruptible_between[OF E, of "rm dst True" "files w" ?d]
      rm_entry[of dst "files w" ?d]
    have "?fs' ?d = files w ?d \<or> ?fs' ?d = None" by auto
    moreover have "files w ?d = None \<or> files w ?d = files w ?s"
      using M by (simp add: mirrored_def)
    ultimately show "?fs' ?d = None \<or> ?fs' ?d = ?fs' ?s"
      using s by auto
  qed
qed

section \<open>The worlds a job goes through\<close>

lemma final_state_failed: "final_state e \<noteq> Succeeded"
  by (simp add: final_state_def)

lemma run_job_trace:
  assumes "make_subtraction_dir job_params run_in_executor w0 = (r1, w1)"
    and "unpack job_params n run_in_executor w1 = (r2, w2)"
    and "set_stats job_params w2 = (r3, w3)"
    and "bowtie_build job_params n run_subprocess w3 = (r4, w4)"
    and "compress job_params n run_in_executor w4 = (r5, w5)"
  shows "run_job job_params n run_in_executor run_subprocess w0 =
     (case r1 of
        Inl e \<Rightarrow> (final_state e,
          [w0, w1, snd (delete_subtraction job_params run_in_executor w1)])
      | Inr m1 \<Rightarrow>
     (case r2 of
        Inl e \<Rightarrow> (final_state e,
          [w0, w1, w2, snd (delete_subtraction job_params run_in_executor w2)])
      | Inr m2 \<Rightarrow>
     (case r3 of
        Inl e \<Rightarrow> (final_state e,
          [w0, w1, w2, w3, snd (delete_subtraction job_params run_in_executor w3)])
      | Inr m3 \<Rightarrow>
     (case r4 of
        Inl e \<Rightarrow> (final_state e,
          [w0, w1, w2, w3, w4, snd (delete_subtraction job_params run_in_executor w4)])
      | Inr m4 \<Rightarrow>
     (case r5 of
        Inl e \<Rightarrow> (final_state e,
          [w0, w1, w2, w3, w4, w5, snd (delete_subtraction job_params run_in_executor w5)])
      | Inr m5 \<Rightarrow> (Succeeded, [w0, w1, w2, w3, w4, w5]))))))"
  using assms by (simp add: run_job_def steps_def split: sum.splits)

lemma handler_absent:
  assumes L: "job_layout job_params ident file dst src fasta index"
    and E: "interruptible run_in_executor"
    and A: "final_absent dst w"
  shows "final_absent dst (snd (delete_subtraction job_params run_in_executor w))"
proof -
  have "files w dst = None" using A under_self by (simp add: final_absent_def)
  from handler_unchanged[OF L E this] A show ?thesis
    by (simp add: final_absent_def)
qed

lemma run_job_files:
  assumes L: "job_layout job_params ident file dst src fasta index"
    and E: "interruptible run_in_executor"
    and W: "writes_below run_subprocess (bowtie_command n fasta index) index"
    and A: "final_absent dst w0"
    and run: "run_job job_params n run_in_executor run_subprocess w0 = (st, tr)"
  shows "tr \<noteq> []
       \<and> (\<forall>w \<in> set (take 5 tr). final_absent dst w)
       \<and> (st = Succeeded \<longrightarrow> copied src dst (last tr))
       \<and> (st \<noteq> Succeeded \<and> length tr < 7 \<longrightarrow> final_absent dst (last tr))
       \<and> (\<forall>w \<in> set tr. mirrored src dst w)"
proof -
  let ?h = "\<lambda>w. snd (delete_subtraction job_params run_in_executor w)"
  obtain r1 w1 where s1: "make_subtraction_dir job_params run_in_executor w0 = (r1, w1)"
    by (cases "make_subtraction_dir job_params run_in_executor w0")
  obtain r2 w2 where s2: "unpack job_params n run_in_executor w1 = (r2, w2)"
    by (cases "unpack job_params n run_in_executor w1")
  obtain r3 w3 where s3: "set_stats job_params w2 = (r3, w3)"
    by (cases "set_stats job_params w2")
  obtain r4 w4 where s4: "bowtie_build job_params n run_subprocess w3 = (r4, w4)"
    by (cases "bowtie_build job_params n run_subprocess w3")
  obtain r5 w5 where s5: "compress job_params n run_in_executor w4 = (r5, w5)"
    by (cases "compress job_params n run_in_executor w4")
  have a1: "final_absent dst w1"
  proof (rule final_absent_step[OF A])
    fix q assume "under dst q"
    from make_subtraction_dir_final[OF L E this, of w0] show "files w1 q = files w0 q"
      using s1 by simp
  qed
  have a2: "final_absent dst w2"
  proof (rule final_absent_step[OF a1])
    fix q assume "under dst q"
    from unpack_final[OF L E this, of n w1] show "files w2 q = files w1 q"
      using s2 by simp
  qed
  have a3: "final_absent dst w3"
    using a2 set_stats_files[of job_params w2] s3 by (simp add: final_absent_def)
  have a4: "final_absent dst w4"
  proof (rule final_absent_step[OF a3])
    fix q assume "under dst q"
    from bowtie_build_final[OF L W this, of w3] show "files w4 q = files w3 q"
      using s4 by simp
  qed
  have h: "final_absent dst (?h w) \<and> mirrored src dst (?h w)" if "final_absent dst w" for w
    using handler_absent[OF L E that] by (simp add: final_absent_mirrored)
  note m0 = final_absent_mirrored[OF A, of src]
  note m1 = final_absent_mirrored[OF a1, of src]
  note m2 = final_absent_mirrored[OF a2, of src]
  note m3 = final_absent_mirrored[OF a3, of src]
  note m4 = final_absent_mirrored[OF a4, of src]
  have m5: "mirrored src dst w5"
    using compress_mirrored[OF L E a4, of n] s5 by simp
  note m6 = handler_mirrored[OF L E m5]
  note t = run_job_trace[OF s1 s2 s3 s4 s5, unfolded run]
  show ?thesis
  proof (cases r1)
    case (Inl e)
    then show ?thesis using t A a1 m0 m1 h[OF a1] by (simp add: final_state_failed)
  next
    case r1: (Inr m1)
    show ?thesis
    proof (cases r2)
      case (Inl e)
      then show ?thesis
        using t r1 A a1 a2 m0 m1 m2 h[OF a2] by (simp add: final_state_failed)
    next
      case r2: (Inr m2)
      show ?thesis
      proof (cases r3)
        case (Inl e)
        then show ?thesis
          using t r1 r2 A a1 a2 a3 m0 m1 m2 m3 h[OF a3] by (simp add: final_state_failed)
      next
        case r3: (Inr m3)
        show ?thesis
        proof (cases r4)
          case (Inl e)
          then show ?thesis
            using t r1 r2 r3 A a1 a2 a3 a4 m0 m1 m2 m3 m4 h[OF a4]
            by (simp add: final_state_failed)
        next
          case r4: (Inr m4)
          show ?thesis
          proof (cases r5)
            case (Inl e)
            then show ?thesis
              using t r1 r2 r3 r4 A a1 a2 a3 a4 m0 m1 m2 m3 m4 m5 m6
              by (simp add: final_state_failed)
          next
            case (Inr m5')
            then have "copied src dst w5" using compress_copied[OF L E] s5 by blast
            then show ?thesis
              using Inr t r1 r2 r3 r4 A a1 a2 a3 a4 m0 m1 m2 m3 m4 m5 by simp
          qed
        qed
      qed
    qed
  qed
qed

lemma run_job_states:
  assumes L: "job_layout job_params ident file dst src fasta index"
    and E: "interruptible run_in_executor"
    and O: "own_not_found run_in_executor"
    and W: "writes_below run_subprocess (bowtie_command n fasta index) index"
    and P: "pending dst ident w0"
    and run: "run_job job_params n run_in_executor run_subprocess w0 = (st, tr)"
  shows "\<forall>w \<in> set tr.
             (is_ready ident w \<longrightarrow> returned (bowtie_command n fasta index) w)
           \<and> (files w dst \<noteq> None \<longrightarrow> is_ready ident w)
           \<and> (returns_built run_subprocess (bowtie_command n fasta index) index \<longrightarrow>
                is_ready ident w \<longrightarrow>
                logged (bowtie_command n fasta index) w \<and> indexed index w)"
proof -
  let ?cmd = "bowtie_command n fasta index"
  let ?built = "returns_built run_subprocess ?cmd index"
  let ?Q = "\<lambda>w. (is_ready ident w \<longrightarrow> returned ?cmd w)
                \<and> (files w dst \<noteq> None \<longrightarrow> is_ready ident w)
                \<and> (?built \<longrightarrow> is_ready ident w \<longrightarrow> logged ?cmd w \<and> indexed index w)"
  let ?h = "\<lambda>w. snd (delete_subtraction job_params run_in_executor w)"
  obtain r1 w1 where s1: "make_subtraction_dir job_params run_in_executor w0 = (r1, w1)"
    by (cases "make_subtraction_dir job_params run_in_executor w0")
  obtain r2 w2 where s2: "unpack job_params n run_in_executor w1 = (r2, w2)"
    by (cases "unpack job_params n run_in_executor w1")
  obtain r3 w3 where s3: "set_stats job_params w2 = (r3, w3)"
    by (cases "set_stats job_params w2")
  obtain r4 w4 where s4: "bowtie_build job_params n run_subprocess w3 = (r4, w4)"
    by (cases "bowtie_build job_params n run_subprocess w3")
  obtain r5 w5 where s5: "compress job_params n run_in_executor w4 = (r5, w5)"
    by (cases "compress job_params n run_in_executor w4")
  have "files w1 dst = files w0 dst"
    using make_subtraction_dir_final[OF L E under_self, of w0] s1 by simp
  moreover have "subtraction w1 = subtraction w0"
    using make_subtraction_dir_subtraction[of job_params run_in_executor w0] s1 by simp
  ultimately have p1: "pending dst ident w1" by (rule pending_step[OF P])
  have "files w2 dst = files w1 dst"
    using unpack_final[OF L E under_self, of n w1] s2 by simp
  moreover have "subtraction w2 = subtraction w1"
    using unpack_subtraction[of job_params n run_in_executor w1] s2 by simp
  ultimately have p2: "pending dst ident w2" by (rule pending_step[OF p1])
  have p3: "pending dst ident w3"
    using set_stats_pending[OF L p2] s3 by simp
  note b = bowtie_build_stage[OF L W p3, unfolded s4, simplified]
  have good: "?Q w" if "pending dst ident w" for w
    using that by (simp add: pending_def)
  have kept: "?Q w" if "committed ?built ident ?cmd index w" for w
    using that by (simp add: committed_def)
  have good_h: "?Q (?h w)" if "pending dst ident w" for w
    using handler_pending[OF L E that] by simp
  have kept_h: "?Q (?h w)" if "committed ?built ident ?cmd index w" for w
    using handler_committed[OF L E O that] by (auto simp: committed_def)
  have g0: "?Q w0" using P by (rule good)
  have g1: "?Q w1" using p1 by (rule good)
  have g2: "?Q w2" using p2 by (rule good)
  have g3: "?Q w3" using p3 by (rule good)
  note t = run_job_trace[OF s1 s2 s3 s4 s5, unfolded run]
  show ?thesis
  proof (cases r1)
    case (Inl e)
    then show ?thesis using t g0 g1 good_h[OF p1] by simp
  next
    case r1: (Inr m1)
    show ?thesis
    proof (cases r2)
      case (Inl e)
      then show ?thesis using t r1 g0 g1 g2 good_h[OF p2] by simp
    next
      case r2: (Inr m2)
      show ?thesis
      proof (cases r3)
        case (Inl e)
        then show ?thesis using t r1 r2 g0 g1 g2 g3 good_h[OF p3] by simp
      next
        case r3: (Inr m3)
        show ?thesis
        proof (cases r4)
          case (Inl e)
          then have p4: "pending dst ident w4" using b by simp
          then have g4: "?Q w4" by (rule good)
          show ?thesis using Inl t r1 r2 r3 g0 g1 g2 g3 g4 good_h[OF p4] by simp
        next
          case r4: (Inr m4)
          then have k4: "committed ?built ident ?cmd index w4" using b by simp
          then have g4: "?Q w4" by (rule kept)
          have k5: "committed ?built ident ?cmd index w5"
            using compress_committed[OF L E k4, of n] s5 by simp
          then have g5: "?Q w5" by (rule kept)
          show ?thesis
          proof (cases r5)
            case (Inl e)
            then show ?thesis
              using t r1 r2 r3 r4 g0 g1 g2 g3 g4 g5 kept_h[OF k5] by simp
          next
            case (Inr m5)
            then show ?thesis
              using t r1 r2 r3 r4 g0 g1 g2 g3 g4 g5 by simp
          qed
        qed
      qed
    qed
  qed
qed

section \<open>The layout that the start-up gives\<close>

lemma join2_below: "b \<noteq> [] \<Longrightarrow> hd b \<noteq> CHR ''/'' \<Longrightarrow> prefix p (join2 p b)"
  by (simp add: join2_def)

lemma join2_apart:
  "\<not> prefix (join2 p ''reference'' @ ''.'') (join2 p ''subtraction.fa'')"
  by (simp add: join2_def)

lemma check_db_layout:
  assumes "\<not> prefix (os_path_join data_path [''subtractions'', lower (replace_space ident)])
               (os_path_join temp_path [ident])"
    and "\<not> prefix (os_path_join temp_path [ident])
               (os_path_join data_path [''subtractions'', lower (replace_space ident)])"
  shows "\<exists>msg jp.
      check_db [''subtraction_id'' \<mapsto> ident, ''file_id'' \<mapsto> fid] data_path temp_path
        = Inr (msg, jp)
    \<and> job_layout jp ident (os_path_join data_path [''files'', fid])
        (os_path_join data_path [''subtractions'', lower (replace_space ident)])
        (os_path_join temp_path [ident])
        (join2 (os_path_join temp_path [ident]) ''subtraction.fa'')
        (join2 (os_path_join temp_path [ident]) ''reference'')"
  using assms join2_apart[of "join2 temp_path ident"]
  by (simp add: check_db_def param_def Let_def job_layout_def os_path_join_def join2_below)

section \<open>The example job\<close>

lemma interruptible_run_direct: "interruptible run_direct"
  by (simp add: interruptible_def run_direct_def)

lemma interruptible_breaking_off: "interruptible (breaking_off p)"
  unfolding interruptible_def
proof (intro allI)
  fix f :: fs_op and fs :: filesystem
  obtain r fs' where run: "f fs = (r, fs')" by (cases "f fs")
  show "breaking_off p f fs = f fs
      \<or> (\<exists>e fs'. breaking_off p f fs = (Inl e, fs')
            \<and> (\<forall>q. fs' q = fs q \<or> fs' q = snd (f fs) q))"
  proof (cases "\<exists>u. r = Inr u \<and> fs p = None \<and> fs' p = Some Dir")
    case True
    then have "breaking_off p f fs = (Inl (OtherError ''shutil.Error''), fs(p \<mapsto> Dir))"
      using run by (auto simp: breaking_off_def)
    moreover have "\<forall>q. (fs(p \<mapsto> Dir)) q = fs q \<or> (fs(p \<mapsto> Dir)) q = snd (f fs) q"
      using True run by simp
    ultimately show ?thesis by blast
  next
    case False
    then have "breaking_off p f fs = f fs"
      using run by (cases r) (auto simp: breaking_off_def)
    then show ?thesis by simp
  qed
qed

lemma own_not_found_breaking_off: "own_not_found (breaking_off p)"
  by (auto simp: own_not_found_def breaking_off_def split: prod.splits sum.splits if_splits)

lemma breaking_off_copytree:
  assumes "shutil_copytree src dst fs = (Inr u, fs')"
  shows "breaking_off dst (shutil_copytree src dst) fs
       = (Inl (OtherError ''shutil.Error''), fs(dst \<mapsto> Dir))"
  using assms
  by (auto simp: breaking_off_def shutil_copytree_def os_makedirs_def
      split: if_splits option.splits node.splits)

lemma bowtie2_build_writes_below:
  "writes_below bowtie2_build (bowtie_command n fasta index) index"
  by (auto simp: writes_below_def bowtie2_build_def bowtie_command_def
      split: sum.splits fdata.splits)

lemma bowtie2_build_returns_built:
  "returns_built bowtie2_build (bowtie_command n fasta index) index"
proof -
  have "prefix (index @ ''.'') (index @ ''.1.bt2'')" by simp
  then show ?thesis
    unfolding returns_built_def
    by (auto simp: bowtie2_build_def bowtie_command_def split: sum.splits fdata.splits
        intro!: exI[of _ "index @ ''.1.bt2''"])
qed

lemma example_final_absent: "final_absent ''/data/subtractions/host_a'' example_world"
  by (auto simp: final_absent_def example_world_def example_files_def under_def)

lemma example_paths:
  "''/data/subtractions/host_a''
     = os_path_join ''/data'' [''subtractions'', lower (replace_space ''Host A'')]"
  "''/tmp/Host A'' = os_path_join ''/tmp'' [''Host A'']"
  "''/tmp/Host A/subtraction.fa'' = join2 ''/tmp/Host A'' ''subtraction.fa''"
  "''/tmp/Host A/reference'' = join2 ''/tmp/Host A'' ''reference''"
  "\<not> prefix ''/data/subtractions/host_a'' ''/tmp/Host A''"
  "\<not> prefix ''/tmp/Host A'' ''/data/subtractions/host_a''"
  by code_simp+

lemma example_record:
  "files example_world ''/data/subtractions/host_a'' = None"
  "subtraction example_world ''Host A'' \<noteq> None"
  "\<not> is_ready ''Host A'' example_world"
  by (simp_all add: example_world_def example_files_def is_ready_def field_of_def)

lemma example_run:
  "fst (run_workflow ''Host A'' ''f1'' ''/data'' ''/tmp'' 4 run_direct bowtie2_build
          example_world) = Succeeded"
  by code_simp

lemma example_broken_off:
  "length (snd (run_workflow ''Host A'' ''f1'' ''/data'' ''/tmp'' 4
          (breaking_off ''/data/subtractions/host_a'') bowtie2_build example_world)) = 7"
  "files (snd (run_workflow ''Host A'' ''f1'' ''/data'' ''/tmp'' 4
          (breaking_off ''/data/subtractions/host_a'') bowtie2_build example_world) ! 5)
     ''/data/subtractions/host_a'' = Some Dir"
  by code_simp+

section \<open>The final directory during a job\<close>

text \<open>
  C2 (as the code has it). Let the working and the final path of a job be such that
  neither is a prefix of the other, the executor be one that runs each operation to
  its end or breaks it off, the indexer write only at its output prefix, and nothing
  exist at the final path or below it when the job starts. Then nothing exists there
  at any of the first five observed points (the start and the ends of
  \<open>make_subtraction_dir\<close>, \<open>unpack\<close>, \<open>set_stats\<close> and \<open>bowtie_build\<close>), nor at the
  end of a job that failed or was cancelled before \<open>compress\<close> ran. At the end of a
  job that succeeded both directories exist and every entry of the final directory
  equals the entry of the same name in the working directory: the contents were
  copied, and the working directory was not removed. And at every observed point,
  also after a copy that was broken off and after the handler, whatever exists below
  the final directory equals the entry of the same name below the working directory:
  nothing is ever at the final location alone.
\<close>

theorem final_directory_absent_until_copied:
  assumes D: "dst = os_path_join data_path [''subtractions'', lower (replace_space ident)]"
    and S: "src = os_path_join temp_path [ident]"
    and I: "fasta = join2 src ''subtraction.fa''" "index = join2 src ''reference''"
    and N: "\<not> prefix dst src" "\<not> prefix src dst"
    and E: "interruptible run_in_executor"
    and W: "writes_below run_subprocess (bowtie_command n fasta index) index"
    and A: "final_absent dst w0"
    and run: "run_workflow ident fid data_path temp_path n run_in_executor run_subprocess w0
                = (st, tr)"
  shows "tr \<noteq> []
       \<and> (\<forall>w \<in> set (take 5 tr). final_absent dst w)
       \<and> (st = Succeeded \<longrightarrow> copied src dst (last tr))
       \<and> (st \<noteq> Succeeded \<and> length tr < 7 \<longrightarrow> final_absent dst (last tr))
       \<and> (\<forall>w \<in> set tr. mirrored src dst w)"
proof -
  obtain msg jp where c:
      "check_db [''subtraction_id'' \<mapsto> ident, ''file_id'' \<mapsto> fid] data_path temp_path
         = Inr (msg, jp)"
    and L: "job_layout jp ident (os_path_join data_path [''files'', fid]) dst src fasta index"
    using check_db_layout[of data_path ident temp_path fid] N unfolding D S I by blast
  have "run_job jp n run_in_executor run_subprocess w0 = (st, tr)"
    using run c by (simp add: run_workflow_def)
  with L E W A show ?thesis by (rule run_job_files)
qed

text \<open>
  The job \<open>Host A\<close> with a direct executor and the example indexer: it succeeds, and
  at its end the final directory is a copy of the working directory.
\<close>

theorem final_directory_absent_until_copied_witness:
  "fst (run_workflow ''Host A'' ''f1'' ''/data'' ''/tmp'' 4 run_direct bowtie2_build
          example_world) = Succeeded
 \<and> copied ''/tmp/Host A'' ''/data/subtractions/host_a''
     (last (snd (run_workflow ''Host A'' ''f1'' ''/data'' ''/tmp'' 4 run_direct bowtie2_build
          example_world)))"
  using final_directory_absent_until_copied
    [OF example_paths interruptible_run_direct bowtie2_build_writes_below
        example_final_absent surjective_pairing]
    example_run
  by simp

text \<open>
  C2 as the spec states it fails: after the job \<open>Host A\<close> has succeeded, the
  compressed FASTA and the index file are in the working directory and in the final
  directory at once.
\<close>

theorem data_in_both_locations_counterexample:
  "fst (run_workflow ''Host A'' ''f1'' ''/data'' ''/tmp'' 4 run_direct bowtie2_build
          example_world) = Succeeded
 \<and> map (files (last (snd (run_workflow ''Host A'' ''f1'' ''/data'' ''/tmp'' 4 run_direct
          bowtie2_build example_world))))
     [''/tmp/Host A/subtraction.fa.gz'', ''/data/subtractions/host_a/subtraction.fa.gz'',
      ''/tmp/Host A/reference.1.bt2'', ''/data/subtractions/host_a/reference.1.bt2'']
   = [Some (File (Gz (Raw (''>s1'' @ [CHR 0x0A] @ ''ATGC'' @ [CHR 0x0A])))),
      Some (File (Gz (Raw (''>s1'' @ [CHR 0x0A] @ ''ATGC'' @ [CHR 0x0A])))),
      Some (File (Raw (''>s1'' @ [CHR 0x0A] @ ''ATGC'' @ [CHR 0x0A]))),
      Some (File (Raw (''>s1'' @ [CHR 0x0A] @ ''ATGC'' @ [CHR 0x0A])))]"
  by code_simp

section \<open>The ready flag\<close>

text \<open>
  C3 (as the code has it). Let the working and the final path of a job be such that
  neither is a prefix of the other, the executor be one that runs each operation to
  its end or breaks it off and that gives back no \<open>FileNotFoundError\<close> but the
  operation's own, the runner change no path outside the output prefix of the
  indexer, and the job start with a record that exists and is not ready and with no
  final directory. Then at every observed point of the job: when the record is ready,
  the log holds a call of the runner with the indexer's command line that returned;
  when the final directory exists, the record is ready; and for a runner that raises
  unless the exit code is 0 and that leaves a file at the output prefix when it
  returns, a record that is ready means exit code 0 in the log and an index file at
  the output prefix. \<open>bowtie_build\<close> itself does not look at what the runner gives
  back.
\<close>

theorem ready_only_after_runner_returned:
  assumes D: "dst = os_path_join data_path [''subtractions'', lower (replace_space ident)]"
    and S: "src = os_path_join temp_path [ident]"
    and I: "fasta = join2 src ''subtraction.fa''" "index = join2 src ''reference''"
    and N: "\<not> prefix dst src" "\<not> prefix src dst"
    and E: "interruptible run_in_executor" "own_not_found run_in_executor"
    and W: "writes_below run_subprocess (bowtie_command n fasta index) index"
    and P: "files w0 dst = None" "subtraction w0 ident \<noteq> None" "\<not> is_ready ident w0"
    and T: "w \<in> set (snd (run_workflow ident fid data_path temp_path n run_in_executor
                              run_subprocess w0))"
  shows "(is_ready ident w \<longrightarrow> returned (bowtie_command n fasta index) w)
       \<and> (files w dst \<noteq> None \<longrightarrow> is_ready ident w)
       \<and> (returns_built run_subprocess (bowtie_command n fasta index) index \<longrightarrow>
            is_ready ident w \<longrightarrow>
            logged (bowtie_command n fasta index) w \<and> indexed index w)"
proof -
  obtain msg jp where c:
      "check_db [''subtraction_id'' \<mapsto> ident, ''file_id'' \<mapsto> fid] data_path temp_path
         = Inr (msg, jp)"
    and L: "job_layout jp ident (os_path_join data_path [''files'', fid]) dst src fasta index"
    using check_db_layout[of data_path ident temp_path fid] N unfolding D S I by blast
  obtain st tr where run: "run_job jp n run_in_executor run_subprocess w0 = (st, tr)"
    by (cases "run_job jp n run_in_executor run_subprocess w0")
  have "pending dst ident w0" using P by (simp add: pending_def)
  with L E W have "\<forall>w \<in> set tr.
             (is_ready ident w \<longrightarrow> returned (bowtie_command n fasta index) w)
           \<and> (files w dst \<noteq> None \<longrightarrow> is_ready ident w)
           \<and> (returns_built run_subprocess (bowtie_command n fasta index) index \<longrightarrow>
                is_ready ident w \<longrightarrow>
                logged (bowtie_command n fasta index) w \<and> indexed index w)"
    using run by (rule run_job_states)
  moreover have "w \<in> set tr"
    using T c run by (simp add: run_workflow_def)
  ultimately show ?thesis by blast
qed

text \<open>
  The job \<open>Host A\<close> with the example indexer and an executor that breaks the copy off
  once the final directory is made: at the sixth observed point, after \<open>compress\<close> has
  raised and before the handler runs, the final directory exists, and so the record is
  ready, the indexer is in the log with exit code 0 and an index file is at
  \<open>/tmp/Host A/reference.\<close>.
\<close>

theorem ready_only_after_runner_returned_witness:
  "files (snd (run_workflow ''Host A'' ''f1'' ''/data'' ''/tmp'' 4
          (breaking_off ''/data/subtractions/host_a'') bowtie2_build example_world) ! 5)
     ''/data/subtractions/host_a'' = Some Dir
 \<and> is_ready ''Host A''
     (snd (run_workflow ''Host A'' ''f1'' ''/data'' ''/tmp'' 4
          (breaking_off ''/data/subtractions/host_a'') bowtie2_build example_world) ! 5)
 \<and> logged (bowtie_command 4 ''/tmp/Host A/subtraction.fa'' ''/tmp/Host A/reference'')
     (snd (run_workflow ''Host A'' ''f1'' ''/data'' ''/tmp'' 4
          (breaking_off ''/data/subtractions/host_a'') bowtie2_build example_world) ! 5)
 \<and> indexed ''/tmp/Host A/reference''
     (snd (run_workflow ''Host A'' ''f1'' ''/data'' ''/tmp'' 4
          (breaking_off ''/data/subtractions/host_a'') bowtie2_build example_world) ! 5)"
proof -
  let ?tr = "snd (run_workflow ''Host A'' ''f1'' ''/data'' ''/tmp'' 4
          (breaking_off ''/data/subtractions/host_a'') bowtie2_build example_world)"
  have "?tr ! 5 \<in> set ?tr" using example_broken_off(1) by (intro nth_mem) simp
  from ready_only_after_runner_returned
    [OF example_paths interruptible_breaking_off own_not_found_breaking_off
        bowtie2_build_writes_below example_record this]
    example_broken_off(2) bowtie2_build_returns_built
  show ?thesis by simp
qed

text \<open>
  C3 as the spec states it fails: with a runner that gives back exit code 1 and
  writes nothing, the job \<open>Host A\<close> succeeds; at its end the record is ready, the
  exit code in the log is 1, none of the index files is there, and the final
  directory is there.
\<close>

theorem ready_after_failed_indexing_counterexample:
  "fst (run_workflow ''Host A'' ''f1'' ''/data'' ''/tmp'' 4 run_direct exit_one
          example_world) = Succeeded
 \<and> is_ready ''Host A''
     (last (snd (run_workflow ''Host A'' ''f1'' ''/data'' ''/tmp'' 4 run_direct exit_one
          example_world)))
 \<and> spawned (last (snd (run_workflow ''Host A'' ''f1'' ''/data'' ''/tmp'' 4 run_direct
          exit_one example_world)))
     = [(bowtie_command 4 ''/tmp/Host A/subtraction.fa'' ''/tmp/Host A/reference'', Inr 1)]
 \<and> map (files (last (snd (run_workflow ''Host A'' ''f1'' ''/data'' ''/tmp'' 4 run_direct
          exit_one example_world))))
     [''/tmp/Host A/reference.1.bt2'', ''/tmp/Host A/reference.2.bt2'',
      ''/tmp/Host A/reference.3.bt2'', ''/tmp/Host A/reference.4.bt2'',
      ''/tmp/Host A/reference.rev.1.bt2'', ''/tmp/Host A/reference.rev.2.bt2'']
   = [None, None, None, None, None, None]
 \<and> files (last (snd (run_workflow ''Host A'' ''f1'' ''/data'' ''/tmp'' 4 run_direct
          exit_one example_world))) ''/data/subtractions/host_a'' = Some Dir"
  by code_simp

end
